theory Spec2Isabelle
  imports Complex_Main
begin

section \<open>Kronecker-structured Laplace inference: an embedding of kronecker.py\<close>

text \<open>
  The theory follows \<^verbatim>\<open>src/kronecker.py\<close>: the dense Kronecker product
  (\<^verbatim>\<open>kron\<close>, \<^verbatim>\<open>kron_list\<close>), the structured matrix-vector product
  (\<^verbatim>\<open>kron_mvp\<close>), the conjugate-gradient solver (\<^verbatim>\<open>CGOptimizer\<close>) and the
  Newton solver with its line search (\<^verbatim>\<open>KroneckerSolver\<close>).

  Conventions of the embedding.
  \<^item> A tensor entry is a value of type \<open>fl\<close>: a finite number, one of the two
    infinities, or NaN. Arithmetic on finite values is exact (rounding and overflow are
    not modelled); the special values follow IEEE 754. Zero carries no sign, so a nonzero
    finite value divided by zero takes the sign of the numerator.
  \<^item> A rank-1 tensor is a list, a rank-2 tensor a list of rows. Matrices are
    rectangular and have at least one row.
  \<^item> Elementwise TensorFlow operations are applied to tensors of the same length
    (all vectors of a solver are co-indexed with the flattened grid).
  \<^item> A Python exception is a value \<open>Inl e\<close> of the result type \<open>error + 'a\<close>.
  \<^item> \<^verbatim>\<open>tf.while_loop\<close> under eager execution is the Python loop
    \<^verbatim>\<open>while cond(*vars): vars = body(*vars)\<close>.
\<close>

subsection \<open>Scalars\<close>

datatype fl = Fin real | PInf | MInf | NaN

datatype error = IndexError | TypeError | ZeroDivisionError | ValueError | InvalidArgumentError

type_synonym vec = "fl list"
type_synonym matrix = "fl list list"

fun is_nan :: "fl \<Rightarrow> bool" where
  "is_nan NaN = True"
| "is_nan _ = False"

fun fneg :: "fl \<Rightarrow> fl" where
  "fneg (Fin a) = Fin (- a)"
| "fneg PInf = MInf"
| "fneg MInf = PInf"
| "fneg NaN = NaN"

fun fadd :: "fl \<Rightarrow> fl \<Rightarrow> fl" where
  "fadd NaN _ = NaN"
| "fadd _ NaN = NaN"
| "fadd (Fin a) (Fin b) = Fin (a + b)"
| "fadd PInf MInf = NaN"
| "fadd MInf PInf = NaN"
| "fadd PInf _ = PInf"
| "fadd MInf _ = MInf"
| "fadd (Fin a) PInf = PInf"
| "fadd (Fin a) MInf = MInf"

definition fsub :: "fl \<Rightarrow> fl \<Rightarrow> fl" where
  "fsub a b = fadd a (fneg b)"

text \<open>The sign of a nonzero value, as the infinity of that sign; zero has none.\<close>

definition signed_inf :: "bool \<Rightarrow> fl" where
  "signed_inf positive = (if positive then PInf else MInf)"

fun fmul :: "fl \<Rightarrow> fl \<Rightarrow> fl" where
  "fmul NaN _ = NaN"
| "fmul _ NaN = NaN"
| "fmul (Fin a) (Fin b) = Fin (a * b)"
| "fmul (Fin a) PInf = (if a = 0 then NaN else signed_inf (0 < a))"
| "fmul (Fin a) MInf = (if a = 0 then NaN else signed_inf (a < 0))"
| "fmul PInf (Fin b) = (if b = 0 then NaN else signed_inf (0 < b))"
| "fmul MInf (Fin b) = (if b = 0 then NaN else signed_inf (b < 0))"
| "fmul PInf PInf = PInf"
| "fmul PInf MInf = MInf"
| "fmul MInf PInf = MInf"
| "fmul MInf MInf = PInf"

fun fdiv :: "fl \<Rightarrow> fl \<Rightarrow> fl" where
  "fdiv NaN _ = NaN"
| "fdiv _ NaN = NaN"
| "fdiv (Fin a) (Fin b) =
     (if b \<noteq> 0 then Fin (a / b) else if a = 0 then NaN else signed_inf (0 < a))"
| "fdiv (Fin a) PInf = Fin 0"
| "fdiv (Fin a) MInf = Fin 0"
| "fdiv PInf (Fin b) = signed_inf (0 \<le> b)"
| "fdiv MInf (Fin b) = signed_inf (b < 0)"
| "fdiv PInf PInf = NaN"
| "fdiv PInf MInf = NaN"
| "fdiv MInf PInf = NaN"
| "fdiv MInf MInf = NaN"

fun fsqrt :: "fl \<Rightarrow> fl" where
  "fsqrt (Fin a) = (if 0 \<le> a then Fin (sqrt a) else NaN)"
| "fsqrt PInf = PInf"
| "fsqrt MInf = NaN"
| "fsqrt NaN = NaN"

fun flog :: "fl \<Rightarrow> fl" where
  "flog (Fin a) = (if 0 < a then Fin (ln a) else if a = 0 then MInf else NaN)"
| "flog PInf = PInf"
| "flog MInf = NaN"
| "flog NaN = NaN"

text \<open>\<^verbatim>\<open>tf.less\<close> and \<^verbatim>\<open>tf.greater\<close>: every comparison with NaN is false.\<close>

fun fless :: "fl \<Rightarrow> fl \<Rightarrow> bool" where
  "fless NaN _ = False"
| "fless _ NaN = False"
| "fless (Fin a) (Fin b) = (a < b)"
| "fless (Fin a) PInf = True"
| "fless (Fin a) MInf = False"
| "fless PInf _ = False"
| "fless MInf MInf = False"
| "fless MInf _ = True"

definition fgreater :: "fl \<Rightarrow> fl \<Rightarrow> bool" where
  "fgreater a b = fless b a"

text \<open>\<open>a \<le> b\<close> in the IEEE sense (false when either side is NaN).\<close>

definition fle :: "fl \<Rightarrow> fl \<Rightarrow> bool" where
  "fle a b = (fless a b \<or> (a = b \<and> \<not> is_nan a))"

text \<open>
  \<^verbatim>\<open>sys.float_info.max\<close>, the largest finite double. (Converted to a 32-bit tensor it
  becomes infinite; the loop tests that use it have the same outcome for either value
  whenever the objective is within the range of 32-bit floats.)
\<close>

definition float_info_max :: fl where
  "float_info_max = Fin ((2 ^ 53 - 1) * 2 ^ 971)"

subsection \<open>Vectors and matrices\<close>

text \<open>\<^verbatim>\<open>tf.reduce_sum\<close>.\<close>

fun reduce_sum :: "vec \<Rightarrow> fl" where
  "reduce_sum [] = Fin 0"
| "reduce_sum (a # as) = fadd a (reduce_sum as)"

text \<open>\<^verbatim>\<open>tf.multiply\<close>, \<^verbatim>\<open>+\<close> and \<^verbatim>\<open>-\<close> on tensors of one shape; a scalar operand is
  broadcast (\<open>smul\<close>).\<close>

definition multiply :: "vec \<Rightarrow> vec \<Rightarrow> vec" where
  "multiply a b = map2 fmul a b"

definition vadd :: "vec \<Rightarrow> vec \<Rightarrow> vec" where
  "vadd a b = map2 fadd a b"

definition vsub :: "vec \<Rightarrow> vec \<Rightarrow> vec" where
  "vsub a b = map2 fsub a b"

definition smul :: "fl \<Rightarrow> vec \<Rightarrow> vec" where
  "smul c a = map (fmul c) a"

definition vneg :: "vec \<Rightarrow> vec" where
  "vneg a = map fneg a"

definition vsqrt :: "vec \<Rightarrow> vec" where
  "vsqrt a = map fsqrt a"

text \<open>\<^verbatim>\<open>1.0 / t\<close> for a tensor \<open>t\<close>.\<close>

definition vrecip :: "vec \<Rightarrow> vec" where
  "vrecip a = map (fdiv (Fin 1)) a"

definition zeros :: "nat \<Rightarrow> vec" where
  "zeros n = replicate n (Fin 0)"

text \<open>\<^verbatim>\<open>tf.boolean_mask\<close> on a vector.\<close>

definition boolean_mask :: "'a list \<Rightarrow> bool list \<Rightarrow> 'a list" where
  "boolean_mask v m = map fst (filter snd (zip v m))"

definition nrows :: "matrix \<Rightarrow> nat" where
  "nrows m = length m"

definition ncols :: "matrix \<Rightarrow> nat" where
  "ncols m = (case m of [] \<Rightarrow> 0 | r # _ \<Rightarrow> length r)"

text \<open>\<^verbatim>\<open>tf.transpose\<close> of a matrix.\<close>

fun transpose_m :: "'a list list \<Rightarrow> 'a list list" where
  "transpose_m [] = []"
| "transpose_m [r] = map (\<lambda>a. [a]) r"
| "transpose_m (r # rs) = map2 (#) r (transpose_m rs)"

text \<open>Row-major flattening and its inverse: \<open>rows_of r c\<close> cuts a flat list into \<open>r\<close>
  rows of \<open>c\<close> entries. \<^verbatim>\<open>tf.reshape\<close> raises when the sizes disagree.\<close>

fun rows_of :: "nat \<Rightarrow> nat \<Rightarrow> 'a list \<Rightarrow> 'a list list" where
  "rows_of 0 c xs = []"
| "rows_of (Suc r) c xs = take c xs # rows_of r c (drop c xs)"

definition reshape :: "vec \<Rightarrow> nat \<Rightarrow> nat \<Rightarrow> error + matrix" where
  "reshape xs r c = (if r * c = length xs then Inr (rows_of r c xs) else Inl InvalidArgumentError)"

definition flatten :: "matrix \<Rightarrow> vec" where
  "flatten m = concat m"

definition dot :: "vec \<Rightarrow> vec \<Rightarrow> fl" where
  "dot a b = reduce_sum (multiply a b)"

text \<open>\<^verbatim>\<open>tf.matmul\<close>: the inner dimensions must agree.\<close>

definition matmul :: "matrix \<Rightarrow> matrix \<Rightarrow> error + matrix" where
  "matmul a b =
     (if ncols a = nrows b
      then Inr (map (\<lambda>row. map (\<lambda>col. dot row col) (transpose_m b)) a)
      else Inl InvalidArgumentError)"

text \<open>The ordinary product of a dense matrix with a vector.\<close>

definition matvec :: "matrix \<Rightarrow> vec \<Rightarrow> vec" where
  "matvec m v = map (\<lambda>row. dot row v) m"

subsection \<open>KroneckerAlgebra: kron, kron\_list, kron\_mvp\<close>

text \<open>
  \<^verbatim>\<open>kron(A, B)\<close>: for each row \<open>i\<close> of \<open>A\<close> a block row is built by appending
  \<open>A[i, j] * B\<close> to the right for each \<open>j\<close>, and the block rows are stacked.
\<close>

definition kron_row :: "vec \<Rightarrow> matrix \<Rightarrow> matrix" where
  "kron_row arow b =
     foldl (\<lambda>row a. map2 (@) row (map (smul a) b)) (replicate (nrows b) []) arow"

definition kron :: "matrix \<Rightarrow> matrix \<Rightarrow> matrix" where
  "kron a b = foldl (\<lambda>out arow. out @ kron_row arow b) [] a"

text \<open>\<^verbatim>\<open>kron_list\<close> reads \<open>matrices[0]\<close> and \<open>matrices[1]\<close> before its loop.\<close>

fun kron_list :: "matrix list \<Rightarrow> error + matrix" where
  "kron_list (m0 # m1 # ms) = Inr (foldl kron (kron m0 m1) ms)"
| "kron_list _ = Inl IndexError"

text \<open>One pass of the loop of \<^verbatim>\<open>kron_mvp\<close>:
  \<^verbatim>\<open>mvp = tf.reshape(tf.transpose(tf.matmul(k, mvp)), [V_rows, V_cols])\<close>.\<close>

definition mvp_pass :: "nat \<Rightarrow> nat \<Rightarrow> matrix \<Rightarrow> matrix \<Rightarrow> error + matrix" where
  "mvp_pass V_rows V_cols k mvp =
     (case matmul k mvp of
        Inl e \<Rightarrow> Inl e
      | Inr p \<Rightarrow> reshape (flatten (transpose_m p)) V_rows V_cols)"

fun mvp_loop :: "nat \<Rightarrow> nat \<Rightarrow> matrix list \<Rightarrow> matrix \<Rightarrow> error + matrix" where
  "mvp_loop V_rows V_cols [] mvp = Inr mvp"
| "mvp_loop V_rows V_cols (k # ks) mvp =
     (case mvp_pass V_rows V_cols k mvp of
        Inl e \<Rightarrow> Inl e
      | Inr mvp' \<Rightarrow> mvp_loop V_rows V_cols ks mvp')"

text \<open>
  \<^verbatim>\<open>kron_mvp(Ks, v)\<close>. \<open>V_cols\<close> is the floor division of Python 2. The final
  \<^verbatim>\<open>tf.squeeze\<close> yields a scalar when the result has one entry; every caller combines
  it elementwise with a vector of that length, so it is kept as a one-entry list.
\<close>

definition kron_mvp :: "matrix list \<Rightarrow> vec \<Rightarrow> error + vec" where
  "kron_mvp Ks v =
     (case Ks of
        [] \<Rightarrow> Inl IndexError
      | K0 # _ \<Rightarrow>
          let V_rows = nrows K0 in
          if V_rows = 0 then Inl ZeroDivisionError
          else
            let V_cols = length v div V_rows in
            (case reshape v V_rows V_cols of
               Inl e \<Rightarrow> Inl e
             | Inr Vm \<Rightarrow>
                 (case mvp_loop V_rows V_cols (rev Ks) (transpose_m Vm) of
                    Inl e \<Rightarrow> Inl e
                  | Inr mvp \<Rightarrow> Inr (flatten (transpose_m mvp)))))"

subsection \<open>Collaborators\<close>

text \<open>
  The likelihood is an external collaborator. \<open>log_like\<close> is its log-density;
  \<open>grad_func\<close> and \<open>hess_func\<close> are what the solver obtains from it by automatic
  differentiation (\<^verbatim>\<open>self.grad_func(y, f)[0]\<close> and \<^verbatim>\<open>self.hess_func(y, f)[0]\<close>).
\<close>

record likelihood =
  log_like :: "vec \<Rightarrow> vec \<Rightarrow> vec"
  grad_func :: "vec \<Rightarrow> vec \<Rightarrow> vec"
  hess_func :: "vec \<Rightarrow> vec \<Rightarrow> vec"

text \<open>The fields of a \<^verbatim>\<open>KroneckerSolver\<close> that the operations below read or write.\<close>

record KroneckerSolver =
  Ks :: "matrix list"
  mu :: vec
  y :: vec
  X :: "real list list"
  k_diag :: "vec option"
  mask_sel :: "bool list option"
  tau :: fl
  alpha :: vec
  W :: vec
  grads :: vec
  f :: vec

subsection \<open>ConjugateGradientSolver: CGOptimizer\<close>

text \<open>
  A \<^verbatim>\<open>CGOptimizer\<close> has one attribute, \<^verbatim>\<open>cg_prod\<close>, which its constructor
  leaves at \<^verbatim>\<open>None\<close> unless an operator is passed. The loop variables of
  \<^verbatim>\<open>cg\<close> are \<open>(p, count, x, r, max_it, precondition, z)\<close>.
\<close>

type_synonym CGOptimizer = "(vec \<Rightarrow> error + vec) option"

type_synonym cg_vars = "vec \<times> nat \<times> vec \<times> vec \<times> nat \<times> vec option \<times> vec option"

definition cg_converged :: "cg_vars \<Rightarrow> bool" where
  "cg_converged vars =
     (case vars of (p, count, x, r, max_it, precondition, z) \<Rightarrow>
        fgreater (reduce_sum (multiply r r)) (Fin (1 / 100000)) \<and> count < max_it)"

definition cg_body :: "(vec \<Rightarrow> error + vec) \<Rightarrow> cg_vars \<Rightarrow> error + cg_vars" where
  "cg_body oper vars =
     (case vars of (p, count, x, r, max_it, precondition, z) \<Rightarrow>
        let count' = count + 1 in
        (case oper p of
           Inl e \<Rightarrow> Inl e
         | Inr Bp \<Rightarrow>
             (case (case precondition of
                      Some pc \<Rightarrow>
                        (case z of
                           Some zv \<Rightarrow> Inr (reduce_sum (multiply r zv))
                         | None \<Rightarrow> Inl ValueError)
                    | None \<Rightarrow> Inr (reduce_sum (multiply r r))) of
                Inl e \<Rightarrow> Inl e
              | Inr norm_k \<Rightarrow>
                  let a = fdiv norm_k (reduce_sum (multiply Bp p));
                      x' = vadd x (smul a p);
                      r' = vsub r (smul a Bp)
                  in (case precondition of
                        Some pc \<Rightarrow>
                          let zv' = multiply (vrecip pc) r';
                              norm_next = reduce_sum (multiply zv' r');
                              beta = fdiv norm_next norm_k;
                              p' = vadd zv' (smul beta p)
                          in Inr (p', count', x', r', max_it, precondition, Some zv')
                      | None \<Rightarrow>
                          let norm_next = reduce_sum (multiply r' r');
                              beta = fdiv norm_next norm_k;
                              p' = vadd r' (smul beta p)
                          in Inr (p', count', x', r', max_it, precondition, z)))))"

function cg_loop :: "(vec \<Rightarrow> error + vec) \<Rightarrow> cg_vars \<Rightarrow> error + cg_vars" where
  "cg_loop oper vars =
     (if cg_converged vars
      then (case cg_body oper vars of Inl e \<Rightarrow> Inl e | Inr vars' \<Rightarrow> cg_loop oper vars')
      else Inr vars)"
  by pat_completeness auto
termination
proof (relation "measure (\<lambda>(oper, (p, count, x, r, max_it, pc, z)). max_it - count)")
  show "wf (measure (\<lambda>(oper, (p, count, x, r, max_it, pc, z)). max_it - count))"
    by simp
next
  fix oper :: "vec \<Rightarrow> error + vec" and vars vars' :: cg_vars
  assume c: "cg_converged vars" and b: "cg_body oper vars = Inr vars'"
  obtain p count x r max_it pc z where v: "vars = (p, count, x, r, max_it, pc, z)"
    by (cases vars) auto
  obtain p' count' x' r' max_it' pc' z' where v': "vars' = (p', count', x', r', max_it', pc', z')"
    by (cases vars') auto
  from b v v' have "count' = count + 1 \<and> max_it' = max_it"
    by (auto simp: cg_body_def Let_def split: sum.splits option.splits)
  moreover from c v have "count < max_it"
    by (simp add: cg_converged_def)
  ultimately show "((oper, vars'), (oper, vars)) \<in>
      measure (\<lambda>(oper, (p, count, x, r, max_it, pc, z)). max_it - count)"
    using v v' by simp
qed

declare cg_loop.simps [simp del]

text \<open>
  \<^verbatim>\<open>cg(b, precondition)\<close>; the parameters \<open>x\<close>, \<open>A\<close> and \<open>z\<close> keep their defaults in
  every call of the repository. \<open>cg_start\<close> is the code before the loop (lines 420 to
  433) and yields the initial loop variables. Calling the attribute \<^verbatim>\<open>cg_prod\<close> while it
  is \<^verbatim>\<open>None\<close> raises \<^verbatim>\<open>TypeError\<close>. The value returned is \<open>fin[2]\<close>, the iterate
  \<open>x\<close>.
\<close>

definition cg_start :: "(vec \<Rightarrow> error + vec) \<Rightarrow> vec \<Rightarrow> vec option \<Rightarrow> error + cg_vars" where
  "cg_start oper b precondition =
     (let count = 0;
          n = length b;
          x = zeros n
      in (case oper x of
            Inl e \<Rightarrow> Inl e
          | Inr Bx \<Rightarrow>
              let r = vsub b Bx;
                  z = (case precondition of
                         Some pc \<Rightarrow> Some (multiply (vrecip pc) r)
                       | None \<Rightarrow> None);
                  p = (case z of Some zv \<Rightarrow> zv | None \<Rightarrow> r)
              in Inr (p, count, x, r, 2 * n, precondition, z)))"

definition cg :: "CGOptimizer \<Rightarrow> vec \<Rightarrow> vec option \<Rightarrow> error + vec" where
  "cg opt b precondition =
     (case opt of
        None \<Rightarrow> Inl TypeError
      | Some oper \<Rightarrow>
          (case cg_start oper b precondition of
             Inl e \<Rightarrow> Inl e
           | Inr vars \<Rightarrow>
               (case cg_loop oper vars of
                  Inl e \<Rightarrow> Inl e
                | Inr (p', count', x', rest) \<Rightarrow> Inr x')))"

subsection \<open>NewtonLaplaceSolver: the operator of the Newton system\<close>

text \<open>\<^verbatim>\<open>KroneckerSolver.cg_prod\<close>, the product with
  \<open>I + W\<^sup>1\<^sup>/\<^sup>2 (K + diag) W\<^sup>1\<^sup>/\<^sup>2\<close>; it reads the solver's current fields.\<close>

definition cg_prod :: "KroneckerSolver \<Rightarrow> vec \<Rightarrow> error + vec" where
  "cg_prod s p =
     (case k_diag s of
        None \<Rightarrow>
          (case kron_mvp (Ks s) (multiply (vsqrt (W s)) p) of
             Inl e \<Rightarrow> Inl e
           | Inr Kp \<Rightarrow> Inr (vadd p (multiply (vsqrt (W s)) Kp)))
      | Some kd \<Rightarrow>
          let Wp = multiply (vsqrt (W s)) p in
          (case kron_mvp (Ks s) Wp of
             Inl e \<Rightarrow> Inl e
           | Inr Kp \<Rightarrow> Inr (vadd p (multiply (vsqrt (W s)) (vadd Kp (multiply kd Wp))))))"

subsection \<open>BacktrackingLineSearch\<close>

text \<open>
  The loop variables of \<^verbatim>\<open>line_search\<close> are
  \<open>(obj_prev, obj_search, min_obj, alpha, delta_alpha, y, step_size, grad_norm, max_it, t, mu,
  opt_step)\<close>; those named like a field of the solver carry a prime here.

  In \<^verbatim>\<open>search_step\<close>, \<^verbatim>\<open>tf.squeeze\<close> turns a one-entry \<open>alpha_search\<close> into a scalar,
  on which \<^verbatim>\<open>v.shape[0]\<close> in \<^verbatim>\<open>kron_mvp\<close> raises \<^verbatim>\<open>IndexError\<close>.
\<close>

type_synonym ls_vars = "fl \<times> fl \<times> fl \<times> vec \<times> vec \<times> vec \<times> fl \<times> fl \<times> int \<times> int \<times> vec \<times> fl"

text \<open>Lines 204 to 219 of \<^verbatim>\<open>search_step\<close>: the objective at the point \<open>alpha_search\<close>.\<close>

definition search_objective ::
  "likelihood \<Rightarrow> KroneckerSolver \<Rightarrow> vec \<Rightarrow> vec \<Rightarrow> vec \<Rightarrow> error + fl" where
  "search_objective lik s alpha_search y' mu' =
     (case kron_mvp (Ks s) alpha_search of
        Inl e \<Rightarrow> Inl e
      | Inr Ka \<Rightarrow>
          let f_search0 = vadd Ka mu';
              f_search = (case k_diag s of
                            None \<Rightarrow> f_search0
                          | Some kd \<Rightarrow> vadd f_search0 (multiply kd alpha_search))
          in (case mask_sel s of
                Some m \<Rightarrow>
                  let y_lim = boolean_mask (y s) m;
                      f_lim = boolean_mask f_search m;
                      alpha_lim = boolean_mask alpha_search m;
                      mu_lim = boolean_mask (mu s) m
                  in Inr (fadd (fneg (reduce_sum (log_like lik y_lim f_lim)))
                            (fmul (Fin (1 / 2))
                               (reduce_sum (multiply alpha_lim (vsub f_lim mu_lim)))))
              | None \<Rightarrow>
                  Inr (fadd (fneg (reduce_sum (log_like lik y' f_search)))
                         (fmul (Fin (1 / 2))
                            (reduce_sum (multiply alpha_search (vsub f_search mu')))))))"

definition search_step :: "likelihood \<Rightarrow> KroneckerSolver \<Rightarrow> ls_vars \<Rightarrow> error + ls_vars" where
  "search_step lik s vars =
     (case vars of
        (obj_prev, obj_search, min_obj, alpha', delta_alpha, y', step_size, grad_norm, max_it, t,
         mu', opt_step) \<Rightarrow>
        let alpha_search = vadd alpha' (smul step_size delta_alpha) in
        if length alpha_search = 1 then Inl IndexError
        else
          (case search_objective lik s alpha_search y' mu' of
             Inl e \<Rightarrow> Inl e
           | Inr obj_search' \<Rightarrow>
               let opt_step' = (if fgreater min_obj obj_search' then step_size else opt_step);
                   min_obj' = (if fgreater min_obj obj_search' then obj_search' else min_obj);
                   step_size' = fmul (tau s) step_size;
                   t' = t + 1
               in Inr (obj_prev, obj_search', min_obj', alpha', delta_alpha, y', step_size',
                       grad_norm, max_it, t', mu', opt_step')))"

definition converge_cond :: "ls_vars \<Rightarrow> bool" where
  "converge_cond vars =
     (case vars of
        (obj_prev, obj_search, min_obj, alpha', delta_alpha, y', step_size, grad_norm, max_it, t,
         mu', opt_step) \<Rightarrow>
        t < max_it \<and> fless (fsub obj_prev obj_search) (fmul step_size (Fin (of_int t))))"

function search_loop :: "likelihood \<Rightarrow> KroneckerSolver \<Rightarrow> ls_vars \<Rightarrow> error + ls_vars" where
  "search_loop lik s vars =
     (if converge_cond vars
      then (case search_step lik s vars of Inl e \<Rightarrow> Inl e | Inr vars' \<Rightarrow> search_loop lik s vars')
      else Inr vars)"
  by pat_completeness auto
termination
proof (relation "measure (\<lambda>(lik, s, (obj_prev, obj_search, min_obj, alpha', delta_alpha, y',
          step_size, grad_norm, max_it, t, mu', opt_step)). nat (max_it - t))")
  show "wf (measure (\<lambda>(lik, s, (obj_prev, obj_search, min_obj, alpha', delta_alpha, y',
          step_size, grad_norm, max_it, t, mu', opt_step)). nat (max_it - t)))"
    by simp
next
  fix lik :: likelihood and s :: KroneckerSolver and vars vars' :: ls_vars
  assume c: "converge_cond vars" and b: "search_step lik s vars = Inr vars'"
  obtain obj_prev obj_search min_obj a d yy step_size grad_norm max_it t m opt_step
    where v: "vars = (obj_prev, obj_search, min_obj, a, d, yy, step_size, grad_norm, max_it, t,
                      m, opt_step)"
    by (cases vars) auto
  obtain obj_prev' obj_search' min_obj' a' d' yy' step_size' grad_norm' max_it' t' m' opt_step'
    where v': "vars' = (obj_prev', obj_search', min_obj', a', d', yy', step_size', grad_norm',
                        max_it', t', m', opt_step')"
    by (cases vars') auto
  from b v v' have "t' = t + 1 \<and> max_it' = max_it"
    by (auto simp: search_step_def Let_def split: sum.splits if_splits)
  moreover from c v have "t < max_it"
    by (simp add: converge_cond_def)
  ultimately show "((lik, s, vars'), (lik, s, vars)) \<in>
      measure (\<lambda>(lik, s, (obj_prev, obj_search, min_obj, alpha', delta_alpha, y',
          step_size, grad_norm, max_it, t, mu', opt_step)). nat (max_it - t))"
    using v v' by simp
qed

declare search_loop.simps [simp del]

definition line_search ::
  "likelihood \<Rightarrow> KroneckerSolver \<Rightarrow> vec \<Rightarrow> vec \<Rightarrow> vec \<Rightarrow> fl \<Rightarrow> int \<Rightarrow> vec \<Rightarrow> error + (fl \<times> fl)" where
  "line_search lik s alpha' delta_alpha y' obj_prev max_it mu' =
     (let obj_search = float_info_max;
          min_obj = obj_prev;
          step_size = Fin 5;
          opt_step = Fin 0;
          grad_norm = reduce_sum (multiply alpha' alpha');
          t = 1
      in (case search_loop lik s
                (obj_prev, obj_search, min_obj, alpha', delta_alpha, y', step_size, grad_norm,
                 max_it, t, mu', opt_step) of
            Inl e \<Rightarrow> Inl e
          | Inr (obj_prev', obj_search', min_obj', alpha'', delta_alpha', y'', step_size',
                 grad_norm', max_it', t', mu'', opt_step') \<Rightarrow> Inr (min_obj', opt_step')))"

subsection \<open>NewtonLaplaceSolver: step, conv, run\<close>

text \<open>
  The solver's attribute \<^verbatim>\<open>self.opt\<close> is a \<^verbatim>\<open>CGOptimizer\<close>. Its operator, when one is
  installed, is a bound method that reads the solver's fields at the time of the call, so
  it is a function of the solver state here. \<^verbatim>\<open>KroneckerSolver.__init__\<close> creates
  \<^verbatim>\<open>CGOptimizer()\<close>, that is \<open>None\<close>; a caller that wants \<^verbatim>\<open>cg\<close> to run installs
  \<^verbatim>\<open>cg_prod\<close> (\<open>Some cg_prod\<close>).
\<close>

type_synonym solver_opt = "(KroneckerSolver \<Rightarrow> vec \<Rightarrow> error + vec) option"

type_synonym newton_vars = "int \<times> int \<times> fl \<times> fl"

definition ones_like :: "vec \<Rightarrow> vec" where
  "ones_like a = replicate (length a) (Fin 1)"

text \<open>\<^verbatim>\<open>tf.where(cond, u, v)\<close> on vectors of one length.\<close>

definition tf_where :: "bool list \<Rightarrow> vec \<Rightarrow> vec \<Rightarrow> vec" where
  "tf_where c u v = map (\<lambda>(ci, ui, vi). if ci then ui else vi) (zip c (zip u v))"

text \<open>
  Lines 83 to 97 of \<^verbatim>\<open>step\<close>: the latent values \<open>f\<close> are assigned and the objective
  \<open>psi\<close> is computed from them.
\<close>

definition evaluate :: "likelihood \<Rightarrow> KroneckerSolver \<Rightarrow> error + (fl \<times> KroneckerSolver)" where
  "evaluate lik s =
     (case kron_mvp (Ks s) (alpha s) of
        Inl e \<Rightarrow> Inl e
      | Inr Ka \<Rightarrow>
          let f0 = vadd Ka (mu s);
              s1 = s\<lparr>f := (case k_diag s of
                             None \<Rightarrow> f0
                           | Some kd \<Rightarrow> vadd f0 (multiply (alpha s) kd))\<rparr>;
              psi =
                (case mask_sel s1 of
                   Some m \<Rightarrow>
                     let y_lim = boolean_mask (y s1) m;
                         f_lim = boolean_mask (f s1) m;
                         alpha_lim = boolean_mask (alpha s1) m;
                         mu_lim = boolean_mask (mu s1) m
                     in fadd (fneg (reduce_sum (log_like lik y_lim f_lim)))
                          (fmul (Fin (1 / 2))
                             (reduce_sum (multiply alpha_lim (vsub f_lim mu_lim))))
                 | None \<Rightarrow>
                     fadd (fneg (reduce_sum (log_like lik (y s1) (f s1))))
                       (fmul (Fin (1 / 2))
                          (reduce_sum (multiply (alpha s1) (vsub (f s1) (mu s1))))))
          in Inr (psi, s1))"

text \<open>
  Lines 104 to 119 of \<^verbatim>\<open>step\<close>: gradient and curvature, the Newton system solved by
  \<^verbatim>\<open>cg\<close>, the direction \<open>delta_alpha\<close> and the line search. The result is
  \<open>(psi, delta_alpha, step_size)\<close> and the solver with \<open>f\<close>, \<open>grads\<close> and \<open>W\<close> assigned.
\<close>

definition step_search ::
  "solver_opt \<Rightarrow> likelihood \<Rightarrow> KroneckerSolver \<Rightarrow> error + (fl \<times> vec \<times> fl \<times> KroneckerSolver)" where
  "step_search opt lik s =
     (case evaluate lik s of
        Inl e \<Rightarrow> Inl e
      | Inr (psi, s1) \<Rightarrow>
          let s2 = s1\<lparr>grads := grad_func lik (y s1) (f s1)\<rparr>;
              hess = hess_func lik (y s2) (f s2);
              s3 = s2\<lparr>W := vneg hess\<rparr>;
              b = vadd (multiply (W s3) (vsub (f s3) (mu s3))) (grads s3)
          in (case cg (map_option (\<lambda>method. method s3) opt)
                     (multiply (vrecip (vsqrt (W s3))) b) (k_diag s3) of
                Inl e \<Rightarrow> Inl e
              | Inr z \<Rightarrow>
                  let delta_alpha = vsub (multiply (vsqrt (W s3)) z) (alpha s3) in
                  (case line_search lik s3 (alpha s3) delta_alpha (y s3) psi 20 (mu s3) of
                     Inl e \<Rightarrow> Inl e
                   | Inr ls \<Rightarrow> Inr (psi, delta_alpha, snd ls, s3))))"

text \<open>Lines 125 to 131 of \<^verbatim>\<open>step\<close>: the gated update of \<open>alpha\<close> and the NaN floor.\<close>

definition step ::
  "solver_opt \<Rightarrow> likelihood \<Rightarrow> newton_vars \<Rightarrow> KroneckerSolver \<Rightarrow>
     error + (newton_vars \<times> KroneckerSolver)" where
  "step opt lik vars s =
     (case vars of
        (max_it, it, prev, delta) \<Rightarrow>
        (case step_search opt lik s of
           Inl e \<Rightarrow> Inl e
         | Inr (psi, delta_alpha, step_size, s3) \<Rightarrow>
             let delta' = fsub prev psi;
                 prev' = psi;
                 s4 = s3\<lparr>alpha :=
                          (if fgreater delta' (Fin (1 / 100000))
                           then vadd (alpha s3) (map (\<lambda>d. fmul d step_size) delta_alpha)
                           else alpha s3)\<rparr>;
                 s5 = s4\<lparr>alpha :=
                          tf_where (map is_nan (alpha s4))
                            (map (\<lambda>one. fmul one (Fin (1 / 1000000000))) (ones_like (alpha s4)))
                            (alpha s4)\<rparr>;
                 it' = it + 1
             in Inr ((max_it, it', prev', delta'), s5)))"

definition conv :: "newton_vars \<Rightarrow> bool" where
  "conv vars =
     (case vars of
        (max_it, it, prev, delta) \<Rightarrow> it < max_it \<and> fgreater delta (Fin (1 / 100000)))"

function newton_loop ::
  "solver_opt \<Rightarrow> likelihood \<Rightarrow> newton_vars \<Rightarrow> KroneckerSolver \<Rightarrow>
     error + (newton_vars \<times> KroneckerSolver)" where
  "newton_loop opt lik vars s =
     (if conv vars
      then (case step opt lik vars s of
              Inl e \<Rightarrow> Inl e
            | Inr (vars', s') \<Rightarrow> newton_loop opt lik vars' s')
      else Inr (vars, s))"
  by pat_completeness auto
termination
proof (relation "measure (\<lambda>(opt, lik, (max_it, it, prev, delta), s). nat (max_it - it))")
  show "wf (measure (\<lambda>(opt, lik, (max_it, it, prev, delta), s). nat (max_it - it)))"
    by simp
next
  fix opt :: solver_opt and lik :: likelihood and vars vars' :: newton_vars
    and s s' :: KroneckerSolver and res
  assume c: "conv vars" and b: "step opt lik vars s = Inr res" and r: "(vars', s') = res"
  obtain max_it it prev delta where v: "vars = (max_it, it, prev, delta)"
    by (cases vars) auto
  obtain max_it' it' prev' delta' where v': "vars' = (max_it', it', prev', delta')"
    by (cases vars') auto
  from b r v v' have "it' = it + 1 \<and> max_it' = max_it"
    by (auto simp: step_def Let_def split: sum.splits prod.splits)
  moreover from c v have "it < max_it"
    by (simp add: conv_def)
  ultimately show "((opt, lik, vars', s'), (opt, lik, vars, s)) \<in>
      measure (\<lambda>(opt, lik, (max_it, it, prev, delta), s). nat (max_it - it))"
    using v v' by simp
qed

declare newton_loop.simps [simp del]

definition run ::
  "solver_opt \<Rightarrow> likelihood \<Rightarrow> int \<Rightarrow> KroneckerSolver \<Rightarrow>
     error + (newton_vars \<times> KroneckerSolver)" where
  "run opt lik max_it s =
     (let delta = float_info_max;
          prev = float_info_max;
          it = 0
      in (case newton_loop opt lik (max_it, it, prev, delta) s of
            Inl e \<Rightarrow> Inl e
          | Inr (out, s1) \<Rightarrow>
              (case kron_mvp (Ks s1) (alpha s1) of
                 Inl e \<Rightarrow> Inl e
               | Inr Ka \<Rightarrow>
                   let s2 = s1\<lparr>f := vadd Ka (mu s1)\<rparr>;
                       s3 = s2\<lparr>grads := grad_func lik (y s2) (f s2)\<rparr>
                   in Inr (out, s3))))"

subsection \<open>NewtonLaplaceSolver: marginal and predict\_mean\<close>

text \<open>\<^verbatim>\<open>tf.expand_dims(e, 1)\<close>: a vector as a one-column matrix.\<close>

definition expand_dims :: "'a list \<Rightarrow> 'a list list" where
  "expand_dims e = map (\<lambda>a. [a]) e"

text \<open>
  \<^verbatim>\<open>marginal(Ks_new)\<close>. The eigenvalues of a factor, \<^verbatim>\<open>tf.self_adjoint_eig(K)[0]\<close>, come
  from the numerical backend and are a parameter. \<^verbatim>\<open>tf.squeeze\<close> of the one-column
  product is its flattening, and a scalar when it has a single entry, which
  \<^verbatim>\<open>tf.boolean_mask\<close> rejects with \<^verbatim>\<open>ValueError\<close>.
\<close>

definition marginal ::
  "(matrix \<Rightarrow> vec) \<Rightarrow> likelihood \<Rightarrow> matrix list option \<Rightarrow> KroneckerSolver \<Rightarrow> error + fl" where
  "marginal self_adjoint_eig lik Ks_new s =
     (let Ks' = (case Ks_new of None \<Rightarrow> Ks s | Some new \<Rightarrow> new);
          eigs = map (\<lambda>K. expand_dims (self_adjoint_eig K)) Ks'
      in (case kron_list eigs of
            Inl e \<Rightarrow> Inl e
          | Inr E \<Rightarrow>
              let eig_K = flatten E in
              (case mask_sel s of
                 Some m \<Rightarrow>
                   if length eig_K = 1 then Inl ValueError
                   else
                     let y_lim = boolean_mask (y s) m;
                         f_lim = boolean_mask (f s) m;
                         alpha_lim = boolean_mask (alpha s) m;
                         mu_lim = boolean_mask (mu s) m;
                         W_lim = boolean_mask (W s) m;
                         eig_k_lim = boolean_mask eig_K m
                     in Inr (fadd
                              (fsub
                                 (fmul (Fin (- (1 / 2)))
                                    (reduce_sum (multiply alpha_lim (vsub f_lim mu_lim))))
                                 (fmul (Fin (1 / 2))
                                    (reduce_sum
                                       (map flog
                                          (map (fadd (Fin 1)) (multiply eig_k_lim W_lim))))))
                              (reduce_sum (log_like lik y_lim f_lim)))
               | None \<Rightarrow>
                   Inr (fadd
                          (fsub
                             (fmul (Fin (- (1 / 2)))
                                (reduce_sum (multiply (alpha s) (vsub (f s) (mu s)))))
                             (fmul (Fin (1 / 2))
                                (reduce_sum
                                   (map flog (map (fadd (Fin 1)) (multiply eig_K (W s)))))))
                          (reduce_sum (log_like lik (y s) (f s)))))))"

text \<open>
  Python iteration. \<^verbatim>\<open>range(n)\<close> yields \<open>0, \<dots>, n - 1\<close>; a \<^verbatim>\<open>for\<close> loop or a
  comprehension over an \<^verbatim>\<open>int\<close> itself raises \<^verbatim>\<open>TypeError\<close> before its body runs.
\<close>

definition py_range :: "nat \<Rightarrow> nat list" where
  "py_range n = [0..<n]"

definition py_iter_int :: "nat \<Rightarrow> error + nat list" where
  "py_iter_int n = Inl TypeError"

text \<open>\<^verbatim>\<open>self.X[:, d]\<close>, \<^verbatim>\<open>np.unique\<close> and \<^verbatim>\<open>self.X.shape[1]\<close> on the coordinate array.\<close>

definition column :: "real list list \<Rightarrow> nat \<Rightarrow> real list" where
  "column m d = map (\<lambda>row. row ! d) m"

definition unique :: "real list \<Rightarrow> real list" where
  "unique xs = sort (remdups xs)"

definition shape1 :: "real list list \<Rightarrow> nat" where
  "shape1 m = (case m of [] \<Rightarrow> 0 | row # _ \<Rightarrow> length row)"

text \<open>
  The kernel is an external collaborator: \<open>kernel_eval X1 X2\<close> is
  \<^verbatim>\<open>kernel.eval(X1, X2)\<close>, with \<open>None\<close> for an omitted second argument.
  \<^verbatim>\<open>construct_Ks\<close> builds one factor per column of \<open>X\<close>, looping over \<^verbatim>\<open>range\<close>;
  \<^verbatim>\<open>predict_mean\<close> loops over the integer \<^verbatim>\<open>self.X.shape[1]\<close> itself.
\<close>

type_synonym kernel = "real list list \<Rightarrow> real list list option \<Rightarrow> matrix"

definition construct_Ks :: "kernel \<Rightarrow> KroneckerSolver \<Rightarrow> matrix list" where
  "construct_Ks kernel_eval s =
     map (\<lambda>i. kernel_eval (expand_dims (unique (column (X s) i))) None)
       (py_range (shape1 (X s)))"

definition predict_mean :: "kernel \<Rightarrow> KroneckerSolver \<Rightarrow> real list list \<Rightarrow> error + fl" where
  "predict_mean kernel_eval s x_new =
     (case py_iter_int (shape1 (X s)) of
        Inl e \<Rightarrow> Inl e
      | Inr ds \<Rightarrow>
          let k_dims = map (\<lambda>d. kernel_eval (expand_dims (unique (column (X s) d)))
                                   (Some (expand_dims (column x_new d)))) ds
          in (case kron_list k_dims of
                Inl e \<Rightarrow> Inl e
              | Inr K \<Rightarrow>
                  let kx = flatten K in
                  (case mu s of
                     [] \<Rightarrow> Inl IndexError
                   | mu0 # _ \<Rightarrow> Inr (fadd (reduce_sum (multiply kx (alpha s))) mu0))))"

subsection \<open>Notions used in the statements\<close>

text \<open>
  \<open>iterate_body body n v\<close> runs a loop body \<open>n\<close> times from \<open>v\<close>, stopping at the
  first exception. A loop \<^verbatim>\<open>while cond(v): v = body(v)\<close> started in \<open>v0\<close> ends in
  \<open>v'\<close> after \<open>n\<close> rounds when \<open>first_exit cond body v0 n v'\<close>: the test holds
  before each of the \<open>n\<close> rounds and fails after the last.
\<close>

fun iterate_body :: "('a \<Rightarrow> error + 'a) \<Rightarrow> nat \<Rightarrow> 'a \<Rightarrow> error + 'a" where
  "iterate_body body 0 v = Inr v"
| "iterate_body body (Suc n) v =
     (case iterate_body body n v of Inl e \<Rightarrow> Inl e | Inr v' \<Rightarrow> body v')"

definition first_exit :: "('a \<Rightarrow> bool) \<Rightarrow> ('a \<Rightarrow> error + 'a) \<Rightarrow> 'a \<Rightarrow> nat \<Rightarrow> 'a \<Rightarrow> bool" where
  "first_exit cond body v0 n v' =
     (iterate_body body n v0 = Inr v' \<and> \<not> cond v' \<and>
      (\<forall>k<n. \<exists>vk. iterate_body body k v0 = Inr vk \<and> cond vk))"

text \<open>The squared residual sum tested by \<^verbatim>\<open>cg_converged\<close>.\<close>

definition residual :: "vec \<Rightarrow> fl" where
  "residual r = reduce_sum (multiply r r)"

text \<open>The \<open>k\<close>-th step size tried by the line search: 5.0 decayed \<open>k\<close> times by \<open>tau\<close>.\<close>

definition candidate :: "KroneckerSolver \<Rightarrow> nat \<Rightarrow> fl" where
  "candidate s k = ((fmul (tau s)) ^^ k) (Fin 5)"

text \<open>The objective that \<^verbatim>\<open>search_step\<close> computes for the step size \<open>c\<close>.\<close>

definition objective_at ::
  "likelihood \<Rightarrow> KroneckerSolver \<Rightarrow> vec \<Rightarrow> vec \<Rightarrow> vec \<Rightarrow> vec \<Rightarrow> fl \<Rightarrow> error + fl" where
  "objective_at lik s alpha' delta_alpha y' mu' c =
     (let alpha_search = vadd alpha' (smul c delta_alpha) in
      if length alpha_search = 1 then Inl IndexError
      else search_objective lik s alpha_search y' mu')"

text \<open>The test of \<^verbatim>\<open>converge_cond\<close> before round \<open>k\<close> (counted from 0), where \<open>obj_last\<close> is
  the objective of the previous candidate: the counter \<open>t\<close> is \<open>k + 1\<close> and the step size
  is \<open>candidate s k\<close>.\<close>

definition continues :: "KroneckerSolver \<Rightarrow> int \<Rightarrow> fl \<Rightarrow> fl \<Rightarrow> nat \<Rightarrow> bool" where
  "continues s max_it obj_prev obj_last k =
     (int k + 1 < max_it \<and>
      fless (fsub obj_prev obj_last) (fmul (candidate s k) (Fin (of_int (int k + 1)))))"

text \<open>The objective \<open>psi\<close> that \<^verbatim>\<open>step\<close> computes for the solver's current \<open>alpha\<close>.\<close>

definition objective :: "likelihood \<Rightarrow> KroneckerSolver \<Rightarrow> error + fl" where
  "objective lik s = map_sum id fst (evaluate lik s)"

text \<open>The stability floor of \<^verbatim>\<open>step\<close>, entry by entry.\<close>

definition floored :: "fl \<Rightarrow> fl" where
  "floored a = (if is_nan a then Fin (1 / 1000000000) else a)"

text \<open>
  The marginal likelihood as the specification words it. The eigenvalues of the
  Kronecker product are the Kronecker product of the factors' eigenvalue vectors, folded
  from the left over two or more factors; under a mask the sums range over the selected
  indices only, and without one over all indices:
  \<open>-\<^sup>1\<^sub>/\<^sub>2 \<Sum> \<alpha>\<^sub>i (f\<^sub>i - \<mu>\<^sub>i) - \<^sup>1\<^sub>/\<^sub>2 \<Sum> log (1 + \<lambda>\<^sub>i W\<^sub>i) + \<Sum> logLike(y, f)\<close>.
\<close>

definition kron_vec :: "vec \<Rightarrow> vec \<Rightarrow> vec" where
  "kron_vec a b = concat (map (\<lambda>x. map (fmul x) b) a)"

definition combined_eigs :: "vec list \<Rightarrow> vec" where
  "combined_eigs es = (case es of e0 # e1 # rest \<Rightarrow> foldl kron_vec (kron_vec e0 e1) rest | _ \<Rightarrow> [])"

definition selected :: "bool list option \<Rightarrow> nat \<Rightarrow> nat list" where
  "selected m n = (case m of None \<Rightarrow> [0..<n] | Some b \<Rightarrow> filter (\<lambda>i. b ! i) [0..<n])"

definition marginal_spec :: "(matrix \<Rightarrow> vec) \<Rightarrow> likelihood \<Rightarrow> matrix list \<Rightarrow> KroneckerSolver \<Rightarrow> fl" where
  "marginal_spec eig lik factors s =
     (let sel = selected (mask_sel s) (length (alpha s));
          lam = combined_eigs (map eig factors)
      in fadd
           (fsub
              (fmul (Fin (- (1 / 2)))
                 (reduce_sum (map (\<lambda>i. fmul (alpha s ! i) (fsub (f s ! i) (mu s ! i))) sel)))
              (fmul (Fin (1 / 2))
                 (reduce_sum (map (\<lambda>i. flog (fadd (Fin 1) (fmul (lam ! i) (W s ! i)))) sel))))
           (reduce_sum (log_like lik (map (\<lambda>i. y s ! i) sel) (map (\<lambda>i. f s ! i) sel))))"

subsection \<open>Concrete inputs\<close>

text \<open>Identity factors of size two and three.\<close>

definition eye2 :: matrix where
  "eye2 = [[Fin 1, Fin 0], [Fin 0, Fin 1]]"

definition eye3 :: matrix where
  "eye3 = [[Fin 1, Fin 0, Fin 0], [Fin 0, Fin 1, Fin 0], [Fin 0, Fin 0, Fin 1]]"

definition neg_eye2 :: matrix where
  "neg_eye2 = [[Fin (- 1), Fin 0], [Fin 0, Fin (- 1)]]"

text \<open>A solver on the 2 by 2 grid whose first factor is negative, with unit curvature:
  its Newton operator \<open>I + W\<^sup>1\<^sup>/\<^sup>2 K W\<^sup>1\<^sup>/\<^sup>2\<close> is the zero map.\<close>

definition s_singular :: KroneckerSolver where
  "s_singular =
     \<lparr>Ks = [neg_eye2, eye2], mu = [Fin 0, Fin 0, Fin 0, Fin 0],
      y = [Fin 0, Fin 0, Fin 0, Fin 0], X = [[0, 0], [0, 1], [1, 0], [1, 1]],
      k_diag = None, mask_sel = None, tau = Fin (1 / 2),
      alpha = [Fin 0, Fin 0, Fin 0, Fin 0], W = [Fin 1, Fin 1, Fin 1, Fin 1],
      grads = [Fin 0, Fin 0, Fin 0, Fin 0], f = [Fin 0, Fin 0, Fin 0, Fin 0]\<rparr>"

text \<open>An operator that maps every direction to zero, and a non-symmetric one on which
  conjugate gradients do not converge.\<close>

definition zero_operator :: "vec \<Rightarrow> error + vec" where
  "zero_operator p = Inr (map (\<lambda>a. Fin 0) p)"

definition skew_operator :: "vec \<Rightarrow> error + vec" where
  "skew_operator p = Inr (matvec [[Fin 1, Fin 1], [Fin (- 1), Fin 1]] p)"

text \<open>A Gaussian likelihood with unit variance, and a solver on the 2 by 2 grid with
  identity factors as \<^verbatim>\<open>__init__\<close> leaves it.\<close>

definition gauss_like :: likelihood where
  "gauss_like =
     \<lparr>log_like = (\<lambda>ys fs. map2 (\<lambda>a b. fmul (Fin (- (1 / 2))) (fmul (fsub a b) (fsub a b))) ys fs),
      grad_func = (\<lambda>ys fs. vsub ys fs),
      hess_func = (\<lambda>ys fs. map (\<lambda>a. Fin (- 1)) fs)\<rparr>"

definition s_gauss :: KroneckerSolver where
  "s_gauss =
     \<lparr>Ks = [eye2, eye2], mu = [Fin 0, Fin 0, Fin 0, Fin 0],
      y = [Fin 10, Fin 10, Fin 10, Fin 10], X = [[0, 0], [0, 1], [1, 0], [1, 1]],
      k_diag = None, mask_sel = None, tau = Fin (1 / 2),
      alpha = [Fin 0, Fin 0, Fin 0, Fin 0], W = [Fin 0, Fin 0, Fin 0, Fin 0],
      grads = [Fin 0, Fin 0, Fin 0, Fin 0], f = [Fin 0, Fin 0, Fin 0, Fin 0]\<rparr>"

text \<open>A log-concave likelihood, \<open>y f - f\<^sup>4 / 12\<close>, whose second derivative \<open>- f\<^sup>2\<close>
  vanishes at \<open>f = 0\<close>, with a solver observing \<open>-1\<close> at every grid point; and the
  Gaussian solver with a unit diagonal term \<open>k_diag\<close>.\<close>

definition quartic_like :: likelihood where
  "quartic_like =
     \<lparr>log_like = (\<lambda>ys fs. map2 (\<lambda>a b. fsub (fmul a b)
                                  (fdiv (fmul (fmul b b) (fmul b b)) (Fin 12))) ys fs),
      grad_func = (\<lambda>ys fs. map2 (\<lambda>a b. fsub a (fdiv (fmul b (fmul b b)) (Fin 3))) ys fs),
      hess_func = (\<lambda>ys fs. map (\<lambda>b. fneg (fmul b b)) fs)\<rparr>"

definition s_flat :: KroneckerSolver where
  "s_flat = s_gauss\<lparr>y := [Fin (- 1), Fin (- 1), Fin (- 1), Fin (- 1)]\<rparr>"


text \<open>The eigenvalues of a diagonal factor are its diagonal entries. A masked variant of
  the Gaussian solver, and a solver with a single kernel factor.\<close>

definition diagonal :: "matrix \<Rightarrow> vec" where
  "diagonal K = map (\<lambda>i. K ! i ! i) [0..<length K]"

definition s_masked :: KroneckerSolver where
  "s_masked = s_gauss\<lparr>mask_sel := Some [True, False, True, True]\<rparr>"

definition s_single :: KroneckerSolver where
  "s_single =
     \<lparr>Ks = [eye2], mu = [Fin 0, Fin 0], y = [Fin 10, Fin 10], X = [[0], [1]],
      k_diag = None, mask_sel = None, tau = Fin (1 / 2), alpha = [Fin 0, Fin 0],
      W = [Fin 0, Fin 0], grads = [Fin 0, Fin 0], f = [Fin 0, Fin 0]\<rparr>"

section \<open>Properties\<close>

subsection \<open>Loops\<close>

lemma iterate_body_shift:
  "iterate_body body (Suc n) v = (case body v of Inl e \<Rightarrow> Inl e | Inr v1 \<Rightarrow> iterate_body body n v1)"
proof (induction n)
  case 0
  show ?case by (simp split: sum.splits)
next
  case (Suc n)
  have "iterate_body body (Suc (Suc n)) v =
        (case iterate_body body (Suc n) v of Inl e \<Rightarrow> Inl e | Inr v' \<Rightarrow> body v')"
    by simp
  also have "\<dots> = (case body v of Inl e \<Rightarrow> Inl e | Inr v1 \<Rightarrow> iterate_body body (Suc n) v1)"
    unfolding Suc.IH by (simp split: sum.splits)
  finally show ?case .
qed

lemma first_exit_stop: "\<not> cond v \<Longrightarrow> first_exit cond body v 0 v"
  by (simp add: first_exit_def)

lemma first_exit_step:
  assumes c: "cond v" and b: "body v = Inr v1" and r: "first_exit cond body v1 n v'"
  shows "first_exit cond body v (Suc n) v'"
proof -
  have it: "iterate_body body (Suc k) v = iterate_body body k v1" for k
    by (simp only: iterate_body_shift b sum.case)
  have "\<exists>vk. iterate_body body k v = Inr vk \<and> cond vk" if "k < Suc n" for k
  proof (cases k)
    case 0
    have "iterate_body body 0 v = Inr v" by simp
    with c 0 show ?thesis by blast
  next
    case (Suc j)
    with that have "j < n" by simp
    with r obtain vj where "iterate_body body j v1 = Inr vj \<and> cond vj"
      unfolding first_exit_def by blast
    then show ?thesis unfolding Suc it by blast
  qed
  moreover from r have "iterate_body body (Suc n) v = Inr v'"
    unfolding first_exit_def it by blast
  moreover from r have "\<not> cond v'"
    unfolding first_exit_def by blast
  ultimately show ?thesis
    unfolding first_exit_def by blast
qed

lemma cg_loop_first_exit:
  "cg_loop oper vars = Inr vars' \<Longrightarrow> \<exists>n. first_exit cg_converged (cg_body oper) vars n vars'"
proof (induction oper vars rule: cg_loop.induct)
  case (1 oper vars)
  show ?case
  proof (cases "cg_converged vars")
    case False
    have "cg_loop oper vars = Inr vars"
      using False by (subst cg_loop.simps) simp
    with "1.prems" have "vars' = vars" by simp
    with False have "first_exit cg_converged (cg_body oper) vars 0 vars'"
      by (simp add: first_exit_stop)
    then show ?thesis ..
  next
    case True
    have u: "cg_loop oper vars =
        (case cg_body oper vars of Inl e \<Rightarrow> Inl e | Inr v1 \<Rightarrow> cg_loop oper v1)"
      using True by (subst cg_loop.simps) simp
    from "1.prems" obtain v1 where b: "cg_body oper vars = Inr v1"
      and l: "cg_loop oper v1 = Inr vars'"
      unfolding u by (cases "cg_body oper vars") auto
    from "1.IH"[OF True b l] obtain n
      where "first_exit cg_converged (cg_body oper) v1 n vars'" ..
    with True b have "first_exit cg_converged (cg_body oper) vars (Suc n) vars'"
      by (rule first_exit_step)
    then show ?thesis ..
  qed
qed

lemma search_loop_first_exit:
  "search_loop lik s vars = Inr vars' \<Longrightarrow>
   \<exists>n. first_exit converge_cond (search_step lik s) vars n vars'"
proof (induction lik s vars rule: search_loop.induct)
  case (1 lik s vars)
  show ?case
  proof (cases "converge_cond vars")
    case False
    have "search_loop lik s vars = Inr vars"
      using False by (subst search_loop.simps) simp
    with "1.prems" have "vars' = vars" by simp
    with False have "first_exit converge_cond (search_step lik s) vars 0 vars'"
      by (simp add: first_exit_stop)
    then show ?thesis ..
  next
    case True
    have u: "search_loop lik s vars =
        (case search_step lik s vars of Inl e \<Rightarrow> Inl e | Inr v1 \<Rightarrow> search_loop lik s v1)"
      using True by (subst search_loop.simps) simp
    from "1.prems" obtain v1 where b: "search_step lik s vars = Inr v1"
      and l: "search_loop lik s v1 = Inr vars'"
      unfolding u by (cases "search_step lik s vars") auto
    from "1.IH"[OF True b l] obtain n
      where "first_exit converge_cond (search_step lik s) v1 n vars'" ..
    with True b have "first_exit converge_cond (search_step lik s) vars (Suc n) vars'"
      by (rule first_exit_step)
    then show ?thesis ..
  qed
qed

subsection \<open>Evaluation rules\<close>

text \<open>Each loop unfolds by one round when its test holds and returns when it fails.\<close>

lemma cg_loop_continue:
  "cg_converged vars \<Longrightarrow>
   cg_loop oper vars = (case cg_body oper vars of Inl e \<Rightarrow> Inl e | Inr vars' \<Rightarrow> cg_loop oper vars')"
  by (subst cg_loop.simps) simp

lemma cg_loop_stop: "\<not> cg_converged vars \<Longrightarrow> cg_loop oper vars = Inr vars"
  by (subst cg_loop.simps) simp

lemma div42: "Suc (Suc (Suc (Suc 0))) div Suc (Suc 0) = Suc (Suc 0)"
  by code_simp

lemmas vec_defs = Let_def multiply_def vadd_def vsub_def smul_def vneg_def vsqrt_def vrecip_def zeros_def
  fsub_def fgreater_def signed_inf_def dot_def

lemma kron_mvp_2x2:
  "kron_mvp [[[a11, a12], [a21, a22]], [[b11, b12], [b21, b22]]] [v1, v2, v3, v4] =
   Inr [fadd (fmul a11 (fadd (fmul b11 v1) (fadd (fmul b12 v2) (Fin 0))))
          (fadd (fmul a12 (fadd (fmul b11 v3) (fadd (fmul b12 v4) (Fin 0)))) (Fin 0)),
        fadd (fmul a11 (fadd (fmul b21 v1) (fadd (fmul b22 v2) (Fin 0))))
          (fadd (fmul a12 (fadd (fmul b21 v3) (fadd (fmul b22 v4) (Fin 0)))) (Fin 0)),
        fadd (fmul a21 (fadd (fmul b11 v1) (fadd (fmul b12 v2) (Fin 0))))
          (fadd (fmul a22 (fadd (fmul b11 v3) (fadd (fmul b12 v4) (Fin 0)))) (Fin 0)),
        fadd (fmul a21 (fadd (fmul b21 v1) (fadd (fmul b22 v2) (Fin 0))))
          (fadd (fmul a22 (fadd (fmul b21 v3) (fadd (fmul b22 v4) (Fin 0)))) (Fin 0))]"
  by (simp add: kron_mvp_def nrows_def ncols_def reshape_def mvp_pass_def matmul_def flatten_def
      div42 dot_def multiply_def)

lemmas cg_eval = cg_def cg_start_def cg_body_def cg_converged_def cg_loop_continue cg_loop_stop

lemma search_loop_continue:
  "converge_cond vars \<Longrightarrow>
   search_loop lik s vars =
     (case search_step lik s vars of Inl e \<Rightarrow> Inl e | Inr vars' \<Rightarrow> search_loop lik s vars')"
  by (subst search_loop.simps) simp

lemma search_loop_stop: "\<not> converge_cond vars \<Longrightarrow> search_loop lik s vars = Inr vars"
  by (subst search_loop.simps) simp

lemmas search_eval = line_search_def search_step_def search_objective_def converge_cond_def
  search_loop_continue search_loop_stop boolean_mask_def float_info_max_def

subsection \<open>The Kronecker matrix-vector product\<close>

text \<open>For two factors of size two with finite entries the structured product is the
  dense one.\<close>

lemma kron_mvp_2x2_finite:
  "kron_mvp [[[Fin a11, Fin a12], [Fin a21, Fin a22]], [[Fin b11, Fin b12], [Fin b21, Fin b22]]]
      [Fin v1, Fin v2, Fin v3, Fin v4]
   = map_sum id (\<lambda>K. matvec K [Fin v1, Fin v2, Fin v3, Fin v4])
       (kron_list [[[Fin a11, Fin a12], [Fin a21, Fin a22]],
                   [[Fin b11, Fin b12], [Fin b21, Fin b22]]])"
  by (simp add: kron_mvp_2x2 kron_def kron_row_def matvec_def nrows_def vec_defs algebra_simps)

text \<open>
  C1. The claim: for two or three dense square factors, \<^verbatim>\<open>kron_mvp(Ks, v)\<close> equals the
  ordinary product of \<^verbatim>\<open>kron_list(Ks)\<close> with \<open>v\<close>. The code reshapes every pass to the
  fixed shape \<open>[V_rows, V_cols]\<close> taken from the first factor, which fits only two
  factors of equal size. With three identity factors of size two the first
  \<^verbatim>\<open>tf.matmul\<close> multiplies a 2 by 2 with a 4 by 2 matrix and raises; with identity
  factors of sizes two and three the entries of \<open>v\<close> come back permuted. In both cases
  the dense product is \<open>v\<close> itself.
\<close>

theorem kron_mvp_differs_from_dense_product:
  "kron_mvp [eye2, eye2, eye2] (map Fin [1, 2, 3, 4, 5, 6, 7, 8]) = Inl InvalidArgumentError
   \<and> map_sum id (\<lambda>K. matvec K (map Fin [1, 2, 3, 4, 5, 6, 7, 8])) (kron_list [eye2, eye2, eye2])
       = Inr (map Fin [1, 2, 3, 4, 5, 6, 7, 8])
   \<and> kron_mvp [eye2, eye3] (map Fin [1, 2, 3, 4, 5, 6]) = Inr (map Fin [1, 5, 4, 3, 2, 6])
   \<and> map_sum id (\<lambda>K. matvec K (map Fin [1, 2, 3, 4, 5, 6])) (kron_list [eye2, eye3])
       = Inr (map Fin [1, 2, 3, 4, 5, 6])"
  by code_simp

subsection \<open>Conjugate gradients\<close>





lemma cg_body_counts:
  assumes "cg_body oper (p, count, x, r, max_it, pc, z) = Inr (p', count', x', r', max_it', pc', z')"
  shows "count' = count + 1 \<and> max_it' = max_it \<and> pc' = pc"
  using assms by (auto simp: cg_body_def Let_def split: sum.splits option.splits)

lemma cg_iterate_counts:
  "iterate_body (cg_body oper) k (p0, c0, x0, r0, m0, pc0, z0) = Inr (p, c, x, r, m, pc, z)
   \<Longrightarrow> c = c0 + k \<and> m = m0 \<and> pc = pc0"
proof (induction k arbitrary: p c x r m pc z)
  case 0
  then show ?case by simp
next
  case (Suc k)
  from Suc.prems obtain v where i: "iterate_body (cg_body oper) k (p0, c0, x0, r0, m0, pc0, z0) = Inr v"
    and b: "cg_body oper v = Inr (p, c, x, r, m, pc, z)"
    by (cases "iterate_body (cg_body oper) k (p0, c0, x0, r0, m0, pc0, z0)") auto
  obtain p1 c1 x1 r1 m1 pc1 z1 where v: "v = (p1, c1, x1, r1, m1, pc1, z1)"
    by (cases v) auto
  from Suc.IH[OF i[unfolded v]] have "c1 = c0 + k \<and> m1 = m0 \<and> pc1 = pc0" .
  moreover from cg_body_counts[OF b[unfolded v]] have "c = c1 + 1 \<and> m = m1 \<and> pc = pc1" .
  ultimately show ?case by simp
qed

text \<open>
  C5, as the code has it. The loop test of \<^verbatim>\<open>cg\<close> is
  \<^verbatim>\<open>greater(reduce_sum(r * r), 1e-5) and count < max_it\<close>. A call that returns has run
  the body some number \<open>n\<close> of times from the initial variables of \<open>cg_start\<close>, with
  the cap \<open>max_it = 2 * length b\<close>. Before each of these rounds the squared residual sum
  exceeded \<open>1e-5\<close> and the count was below the cap; after the last round the squared
  residual sum is not greater than \<open>1e-5\<close> (it is below it, equal to it, or NaN) or the
  count has reached the cap. What is returned is the iterate \<open>x\<close> of that last state and
  nothing else, whether or not the residual test was met.
\<close>

theorem cg_stops_at_threshold_or_cap:
  assumes ret: "cg (Some oper) b precondition = Inr x_fin"
  shows "\<exists>n vars0 p_fin r_fin z_fin.
           cg_start oper b precondition = Inr vars0
         \<and> iterate_body (cg_body oper) n vars0
             = Inr (p_fin, n, x_fin, r_fin, 2 * length b, precondition, z_fin)
         \<and> n \<le> 2 * length b
         \<and> (\<not> fgreater (residual r_fin) (Fin (1 / 100000)) \<or> n = 2 * length b)
         \<and> (\<forall>k<n. \<exists>pk xk rk zk.
               iterate_body (cg_body oper) k vars0
                 = Inr (pk, k, xk, rk, 2 * length b, precondition, zk)
             \<and> fgreater (residual rk) (Fin (1 / 100000)) \<and> k < 2 * length b)"
proof -
  from ret obtain vars0 where s: "cg_start oper b precondition = Inr vars0"
    by (cases "cg_start oper b precondition") (auto simp: cg_def)
  from ret s obtain p_fin c_fin r_fin m_fin pc_fin z_fin
    where l: "cg_loop oper vars0 = Inr (p_fin, c_fin, x_fin, r_fin, m_fin, pc_fin, z_fin)"
    by (cases "cg_loop oper vars0") (auto simp: cg_def)
  from s obtain p0 r0 z0 where v0: "vars0 = (p0, 0, zeros (length b), r0, 2 * length b, precondition, z0)"
    by (cases "oper (zeros (length b))") (auto simp: cg_start_def Let_def)
  from cg_loop_first_exit[OF l] obtain n
    where fe: "first_exit cg_converged (cg_body oper) vars0 n
                 (p_fin, c_fin, x_fin, r_fin, m_fin, pc_fin, z_fin)" ..
  then have fin: "iterate_body (cg_body oper) n vars0
                    = Inr (p_fin, c_fin, x_fin, r_fin, m_fin, pc_fin, z_fin)"
    and stop: "\<not> cg_converged (p_fin, c_fin, x_fin, r_fin, m_fin, pc_fin, z_fin)"
    and before: "\<forall>k<n. \<exists>vk. iterate_body (cg_body oper) k vars0 = Inr vk \<and> cg_converged vk"
    unfolding first_exit_def by simp_all
  from cg_iterate_counts[OF fin[unfolded v0]]
  have cf: "c_fin = n" "m_fin = 2 * length b" "pc_fin = precondition" by simp_all
  have earlier: "\<exists>pk xk rk zk.
               iterate_body (cg_body oper) k vars0
                 = Inr (pk, k, xk, rk, 2 * length b, precondition, zk)
             \<and> fgreater (residual rk) (Fin (1 / 100000)) \<and> k < 2 * length b" if "k < n" for k
  proof -
    from before that obtain vk where i: "iterate_body (cg_body oper) k vars0 = Inr vk"
      and c: "cg_converged vk" by blast
    obtain pk ck xk rk mk pck zk where vk: "vk = (pk, ck, xk, rk, mk, pck, zk)"
      by (cases vk) auto
    from cg_iterate_counts[OF i[unfolded v0 vk]]
    have "ck = k" "mk = 2 * length b" "pck = precondition" by simp_all
    with i vk c show ?thesis
      by (auto simp: cg_converged_def residual_def)
  qed
  have le: "n \<le> 2 * length b"
  proof (cases n)
    case 0
    then show ?thesis by simp
  next
    case (Suc j)
    with earlier[of j] show ?thesis by auto
  qed
  from stop cf le have "\<not> fgreater (residual r_fin) (Fin (1 / 100000)) \<or> n = 2 * length b"
    by (auto simp: cg_converged_def residual_def)
  with s fin cf le earlier show ?thesis
    by blast
qed

text \<open>
  On the non-symmetric operator \<open>[[1, 1], [-1, 1]]\<close> with \<open>b = [1, 0]\<close> the loop runs the
  full \<open>2N = 4\<close> rounds, the squared residual sum is still \<open>144 / 25\<close>, and \<^verbatim>\<open>cg\<close>
  returns the iterate \<open>[1.7, 1.7]\<close> (the solution is \<open>[0.5, 0.5]\<close>).
\<close>

theorem cg_stops_at_threshold_or_cap_witness:
  "cg (Some skew_operator) [Fin 1, Fin 0] None = Inr [Fin (17 / 10), Fin (17 / 10)]
   \<and> iterate_body (cg_body skew_operator) 4
         ([Fin 1, Fin 0], 0, [Fin 0, Fin 0], [Fin 1, Fin 0], 4, None, None)
       = Inr ([Fin (- (12 / 5)), Fin (48 / 5)], 4, [Fin (17 / 10), Fin (17 / 10)],
              [Fin (- (12 / 5)), Fin 0], 4, None, None)
   \<and> fgreater (residual [Fin (- (12 / 5)), Fin 0]) (Fin (1 / 100000))
   \<and> (\<exists>n vars0 p_fin r_fin z_fin.
           cg_start skew_operator [Fin 1, Fin 0] None = Inr vars0
         \<and> iterate_body (cg_body skew_operator) n vars0
             = Inr (p_fin, n, [Fin (17 / 10), Fin (17 / 10)], r_fin, 2 * length [Fin 1, Fin 0],
                    None, z_fin)
         \<and> n \<le> 2 * length [Fin 1, Fin 0]
         \<and> (\<not> fgreater (residual r_fin) (Fin (1 / 100000)) \<or> n = 2 * length [Fin 1, Fin 0])
         \<and> (\<forall>k<n. \<exists>pk xk rk zk.
               iterate_body (cg_body skew_operator) k vars0
                 = Inr (pk, k, xk, rk, 2 * length [Fin 1, Fin 0], None, zk)
             \<and> fgreater (residual rk) (Fin (1 / 100000)) \<and> k < 2 * length [Fin 1, Fin 0]))"
proof -
  have h: "cg (Some skew_operator) [Fin 1, Fin 0] None = Inr [Fin (17 / 10), Fin (17 / 10)]"
    by (simp add: cg_eval skew_operator_def matvec_def vec_defs)
  have i: "iterate_body (cg_body skew_operator) 4
         ([Fin 1, Fin 0], 0, [Fin 0, Fin 0], [Fin 1, Fin 0], 4, None, None)
       = Inr ([Fin (- (12 / 5)), Fin (48 / 5)], 4, [Fin (17 / 10), Fin (17 / 10)],
              [Fin (- (12 / 5)), Fin 0], 4, None, None)"
    by (simp add: cg_body_def numeral_eq_Suc skew_operator_def matvec_def vec_defs)
  have r: "fgreater (residual [Fin (- (12 / 5)), Fin 0]) (Fin (1 / 100000))"
    by (simp add: residual_def vec_defs)
  from h i r cg_stops_at_threshold_or_cap[OF h] show ?thesis
    by (intro conjI)
qed

text \<open>
  C5, as the claim states it, fails: the loop can stop with a squared residual sum that
  is not below \<open>1e-5\<close> and a count short of \<open>2N\<close>. On the operator that maps every
  direction to zero, with \<open>b = [1, 1]\<close>, the loop test holds at the start; the first
  round divides \<open>2\<close> by \<open>0\<close>, the iterate becomes \<open>[inf, inf]\<close> and the residual
  \<open>[NaN, NaN]\<close>; \<^verbatim>\<open>greater(NaN, 1e-5)\<close> is false, so the loop stops after one round
  of the four allowed, and the squared residual sum NaN is not less than \<open>1e-5\<close>. The
  same happens with the operator of the solver \<open>s_singular\<close> and \<open>b = [1, 1, 1, 1]\<close>,
  after one round of eight.
\<close>

theorem cg_nan_residual_counterexample:
  "cg_start zero_operator [Fin 1, Fin 1] None
       = Inr ([Fin 1, Fin 1], 0, [Fin 0, Fin 0], [Fin 1, Fin 1], 4, None, None)
   \<and> cg_converged ([Fin 1, Fin 1], 0, [Fin 0, Fin 0], [Fin 1, Fin 1], 4, None, None)
   \<and> cg_body zero_operator ([Fin 1, Fin 1], 0, [Fin 0, Fin 0], [Fin 1, Fin 1], 4, None, None)
       = Inr ([NaN, NaN], 1, [PInf, PInf], [NaN, NaN], 4, None, None)
   \<and> \<not> cg_converged ([NaN, NaN], 1, [PInf, PInf], [NaN, NaN], 4, None, None)
   \<and> cg_loop zero_operator ([Fin 1, Fin 1], 0, [Fin 0, Fin 0], [Fin 1, Fin 1], 4, None, None)
       = Inr ([NaN, NaN], 1, [PInf, PInf], [NaN, NaN], 4, None, None)
   \<and> cg (Some zero_operator) [Fin 1, Fin 1] None = Inr [PInf, PInf]
   \<and> residual [NaN, NaN] = NaN
   \<and> \<not> fless (residual [NaN, NaN]) (Fin (1 / 100000))
   \<and> (1::nat) \<noteq> 2 * length [Fin 1, Fin 1]
   \<and> cg_loop (cg_prod s_singular)
         ([Fin 1, Fin 1, Fin 1, Fin 1], 0, [Fin 0, Fin 0, Fin 0, Fin 0],
          [Fin 1, Fin 1, Fin 1, Fin 1], 8, None, None)
       = Inr ([NaN, NaN, NaN, NaN], 1, [PInf, PInf, PInf, PInf], [NaN, NaN, NaN, NaN],
              8, None, None)
   \<and> \<not> fless (residual [NaN, NaN, NaN, NaN]) (Fin (1 / 100000))
   \<and> (1::nat) \<noteq> 2 * length [Fin 1, Fin 1, Fin 1, Fin 1]"
  by (simp add: cg_eval cg_prod_def s_singular_def neg_eye2_def eye2_def kron_mvp_2x2
        zero_operator_def residual_def vec_defs)




subsection \<open>Prediction\<close>

text \<open>
  C9. The claim: \<^verbatim>\<open>predict_mean(x_new)\<close> returns the posterior mean at the new input.
  The comprehension that should build the per-dimension cross-covariances iterates over
  the integer \<^verbatim>\<open>self.X.shape[1]\<close> instead of \<^verbatim>\<open>range(self.X.shape[1])\<close> (which
  \<^verbatim>\<open>construct_Ks\<close> uses), so every call raises \<^verbatim>\<open>TypeError\<close> before any covariance
  is evaluated.
\<close>

theorem predict_mean_raises_type_error:
  "predict_mean kernel_eval s x_new = Inl TypeError"
  by (simp add: predict_mean_def py_iter_int_def)

subsection \<open>Line search\<close>

lemma fless_trans: "fless a b \<Longrightarrow> fless b c \<Longrightarrow> fless a c"
  by (cases a; cases b; cases c) auto

lemma fless_asym: "fless a b \<Longrightarrow> \<not> fless b a"
  by (cases a; cases b) auto

lemma fless_irrefl: "\<not> fless a a"
  by (cases a) auto

lemma search_step_eq:
  "search_step lik s (op, ol, mo, a, d, yy, ss, gn, mx, t, m, ost) =
     (case objective_at lik s a d yy m ss of
        Inl e \<Rightarrow> Inl e
      | Inr ob \<Rightarrow>
          Inr (op, ob, (if fgreater mo ob then ob else mo), a, d, yy, fmul (tau s) ss, gn, mx,
               t + 1, m, (if fgreater mo ob then ss else ost)))"
  by (simp add: search_step_def objective_at_def Let_def split: sum.splits)

lemma candidate_Suc: "candidate s (Suc k) = fmul (tau s) (candidate s k)"
  by (simp add: candidate_def)

lemma search_iterate_inv:
  "iterate_body (search_step lik s) k
     (obj_prev, float_info_max, obj_prev, a, d, yy, Fin 5, gn, mx, 1, m, Fin 0) = Inr vk
   \<Longrightarrow> \<exists>os mo ost.
         length os = k
       \<and> vk = (obj_prev, (float_info_max # os) ! k, mo, a, d, yy, candidate s k, gn, mx,
               int k + 1, m, ost)
       \<and> (\<forall>j<k. objective_at lik s a d yy m (candidate s j) = Inr (os ! j))
       \<and> (\<forall>j<k. \<not> fgreater mo (os ! j))
       \<and> \<not> fgreater mo obj_prev
       \<and> ((ost = Fin 0 \<and> mo = obj_prev \<and> (\<forall>j<k. \<not> fless (os ! j) obj_prev))
          \<or> (\<exists>j<k. ost = candidate s j \<and> mo = os ! j \<and> fless (os ! j) obj_prev))"
proof (induction k arbitrary: vk)
  case 0
  then show ?case
    by (auto simp: candidate_def fgreater_def fless_irrefl)
next
  case (Suc k)
  let ?v0 = "(obj_prev, float_info_max, obj_prev, a, d, yy, Fin 5, gn, mx, 1, m, Fin 0)"
  from Suc.prems obtain v where i: "iterate_body (search_step lik s) k ?v0 = Inr v"
    and b: "search_step lik s v = Inr vk"
    by (cases "iterate_body (search_step lik s) k ?v0") auto
  from Suc.IH[OF i] obtain os mo ost where len: "length os = k"
    and v: "v = (obj_prev, (float_info_max # os) ! k, mo, a, d, yy, candidate s k, gn, mx,
               int k + 1, m, ost)"
    and objs: "\<forall>j<k. objective_at lik s a d yy m (candidate s j) = Inr (os ! j)"
    and low: "\<forall>j<k. \<not> fgreater mo (os ! j)"
    and lowp: "\<not> fgreater mo obj_prev"
    and sel: "(ost = Fin 0 \<and> mo = obj_prev \<and> (\<forall>j<k. \<not> fless (os ! j) obj_prev))
          \<or> (\<exists>j<k. ost = candidate s j \<and> mo = os ! j \<and> fless (os ! j) obj_prev)"
    by blast
  from b[unfolded v search_step_eq] obtain ob
    where ob: "objective_at lik s a d yy m (candidate s k) = Inr ob"
      and vk: "vk = (obj_prev, ob, (if fgreater mo ob then ob else mo), a, d, yy,
                     fmul (tau s) (candidate s k), gn, mx, int k + 1 + 1, m,
                     (if fgreater mo ob then candidate s k else ost))"
    by (cases "objective_at lik s a d yy m (candidate s k)") auto
  let ?os = "os @ [ob]"
  let ?mo = "if fgreater mo ob then ob else mo"
  let ?ost = "if fgreater mo ob then candidate s k else ost"
  have nth_old: "?os ! j = os ! j" if "j < k" for j
    using that len by (simp add: nth_append)
  have nth_new: "?os ! k = ob"
    using len by (simp add: nth_append)
  have 1: "length ?os = Suc k" using len by simp
  have 2: "vk = (obj_prev, (float_info_max # ?os) ! Suc k, ?mo, a, d, yy, candidate s (Suc k),
                 gn, mx, int (Suc k) + 1, m, ?ost)"
    using vk nth_new by (simp add: candidate_Suc)
  have 3: "\<forall>j<Suc k. objective_at lik s a d yy m (candidate s j) = Inr (?os ! j)"
    using objs ob nth_old nth_new by (auto simp: less_Suc_eq)
  have 4: "\<forall>j<Suc k. \<not> fgreater ?mo (?os ! j)"
  proof (intro allI impI)
    fix j assume "j < Suc k"
    then consider "j < k" | "j = k" by linarith
    then show "\<not> fgreater ?mo (?os ! j)"
    proof cases
      case 1
      with low have n: "\<not> fless (os ! j) mo" by (simp add: fgreater_def)
      show ?thesis
      proof (cases "fgreater mo ob")
        case True
        then have "fless ob mo" by (simp add: fgreater_def)
        with n have "\<not> fless (os ! j) ob" using fless_trans by blast
        with True 1 show ?thesis by (simp add: fgreater_def nth_old)
      next
        case False
        with n 1 show ?thesis by (simp add: fgreater_def nth_old)
      qed
    next
      case 2
      then show ?thesis
        using nth_new by (auto simp: fgreater_def fless_irrefl)
    qed
  qed
  have 5: "\<not> fgreater ?mo obj_prev"
  proof (cases "fgreater mo ob")
    case True
    then have lt: "fless ob mo" by (simp add: fgreater_def)
    from lowp have "\<not> fless obj_prev mo" by (simp add: fgreater_def)
    with lt have "\<not> fless obj_prev ob" using fless_trans by blast
    with True show ?thesis by (simp add: fgreater_def)
  next
    case False
    with lowp show ?thesis by simp
  qed
  have 6: "(?ost = Fin 0 \<and> ?mo = obj_prev \<and> (\<forall>j<Suc k. \<not> fless (?os ! j) obj_prev))
          \<or> (\<exists>j<Suc k. ?ost = candidate s j \<and> ?mo = ?os ! j \<and> fless (?os ! j) obj_prev)"
  proof (cases "fgreater mo ob")
    case True
    then have lt: "fless ob mo" by (simp add: fgreater_def)
    have "fless ob obj_prev"
      using sel
    proof
      assume "ost = Fin 0 \<and> mo = obj_prev \<and> (\<forall>j<k. \<not> fless (os ! j) obj_prev)"
      with lt show ?thesis by simp
    next
      assume "\<exists>j<k. ost = candidate s j \<and> mo = os ! j \<and> fless (os ! j) obj_prev"
      then have "fless mo obj_prev" by auto
      with lt show ?thesis using fless_trans by blast
    qed
    with True nth_new have "?ost = candidate s k \<and> ?mo = ?os ! k \<and> fless (?os ! k) obj_prev"
      by simp
    then show ?thesis by blast
  next
    case False
    then have nlt: "\<not> fless ob mo" by (simp add: fgreater_def)
    from sel show ?thesis
    proof
      assume h: "ost = Fin 0 \<and> mo = obj_prev \<and> (\<forall>j<k. \<not> fless (os ! j) obj_prev)"
      with nlt have "\<forall>j<Suc k. \<not> fless (?os ! j) obj_prev"
        using nth_old nth_new by (auto simp: less_Suc_eq)
      with h False show ?thesis by simp
    next
      assume "\<exists>j<k. ost = candidate s j \<and> mo = os ! j \<and> fless (os ! j) obj_prev"
      then obtain j where "j < k" "ost = candidate s j" "mo = os ! j" "fless (os ! j) obj_prev"
        by blast
      with False nth_old[of j] have "j < Suc k \<and> ?ost = candidate s j \<and> ?mo = ?os ! j
          \<and> fless (?os ! j) obj_prev"
        by simp
      then show ?thesis by blast
    qed
  qed
  from 1 2 3 4 5 6 show ?case by blast
qed


lemma converge_cond_continues:
  "converge_cond (obj_prev, ol, mo, a, d, yy, candidate s k, gn, mx, int k + 1, m, ost)
     = continues s mx obj_prev ol k"
  by (simp add: converge_cond_def continues_def)

lemma line_search_trace:
  assumes ret: "line_search lik s a d yy obj_prev mx m = Inr (min_obj, opt_step)"
  shows "\<exists>os.
           (length os = 0 \<or> int (length os) < mx)
         \<and> (\<forall>k<length os. objective_at lik s a d yy m (candidate s k) = Inr (os ! k))
         \<and> (\<forall>k\<le>length os.
               (k < length os) = continues s mx obj_prev ((float_info_max # os) ! k) k)
         \<and> (\<forall>k<length os. \<not> fgreater min_obj (os ! k))
         \<and> \<not> fgreater min_obj obj_prev
         \<and> ((opt_step = Fin 0 \<and> min_obj = obj_prev \<and> (\<forall>k<length os. \<not> fless (os ! k) obj_prev))
            \<or> (\<exists>k<length os. opt_step = candidate s k \<and> min_obj = os ! k
                  \<and> fless (os ! k) obj_prev))"
proof -
  let ?gn = "reduce_sum (multiply a a)"
  let ?v0 = "(obj_prev, float_info_max, obj_prev, a, d, yy, Fin 5, ?gn, mx, 1::int, m, Fin 0)"
  from ret obtain vfin where l: "search_loop lik s ?v0 = Inr vfin"
    by (cases "search_loop lik s ?v0") (auto simp: line_search_def Let_def)
  from search_loop_first_exit[OF l] obtain n
    where fe: "first_exit converge_cond (search_step lik s) ?v0 n vfin" ..
  then have fin: "iterate_body (search_step lik s) n ?v0 = Inr vfin"
    and stop: "\<not> converge_cond vfin"
    and before: "\<forall>k<n. \<exists>vk. iterate_body (search_step lik s) k ?v0 = Inr vk \<and> converge_cond vk"
    unfolding first_exit_def by simp_all
  from search_iterate_inv[OF fin] obtain os mo ost where len: "length os = n"
    and vfin: "vfin = (obj_prev, (float_info_max # os) ! n, mo, a, d, yy, candidate s n, ?gn, mx,
                       int n + 1, m, ost)"
    and objs: "\<forall>j<n. objective_at lik s a d yy m (candidate s j) = Inr (os ! j)"
    and low: "\<forall>j<n. \<not> fgreater mo (os ! j)"
    and lowp: "\<not> fgreater mo obj_prev"
    and sel: "(ost = Fin 0 \<and> mo = obj_prev \<and> (\<forall>j<n. \<not> fless (os ! j) obj_prev))
          \<or> (\<exists>j<n. ost = candidate s j \<and> mo = os ! j \<and> fless (os ! j) obj_prev)"
    by blast
  from ret l vfin have res: "min_obj = mo" "opt_step = ost"
    by (simp_all add: line_search_def Let_def)
  have cont: "continues s mx obj_prev ((float_info_max # os) ! k) k" if "k < n" for k
  proof -
    from before that obtain vk where i: "iterate_body (search_step lik s) k ?v0 = Inr vk"
      and c: "converge_cond vk" by blast
    from search_iterate_inv[OF i] obtain os' mo' ost' where len': "length os' = k"
      and vk: "vk = (obj_prev, (float_info_max # os') ! k, mo', a, d, yy, candidate s k, ?gn, mx,
                     int k + 1, m, ost')"
      and objs': "\<forall>j<k. objective_at lik s a d yy m (candidate s j) = Inr (os' ! j)"
      by blast
    have "(float_info_max # os') ! k = (float_info_max # os) ! k"
    proof (cases k)
      case 0
      then show ?thesis by simp
    next
      case (Suc j)
      with that have "j < k" "j < n" by simp_all
      with objs objs' have "Inr (os' ! j) = (Inr (os ! j) :: error + fl)" by metis
      with Suc show ?thesis by simp
    qed
    with c vk show ?thesis
      by (simp add: converge_cond_continues)
  qed
  from stop vfin have nstop: "\<not> continues s mx obj_prev ((float_info_max # os) ! n) n"
    by (simp add: converge_cond_continues)
  have bound: "length os = 0 \<or> int (length os) < mx"
  proof (cases n)
    case 0
    with len show ?thesis by simp
  next
    case (Suc j)
    with cont[of j] have "int j + 1 < mx" by (simp add: continues_def)
    with Suc len show ?thesis by simp
  qed
  have tests: "\<forall>k\<le>length os.
               (k < length os) = continues s mx obj_prev ((float_info_max # os) ! k) k"
    using cont nstop len by (auto simp: le_less)
  from bound objs tests low lowp sel show ?thesis
    unfolding res len[symmetric] by blast
qed

text \<open>
  C2. A call of \<^verbatim>\<open>line_search\<close> with \<open>max_it = 20\<close> that returns
  \<open>(min_obj, opt_step)\<close> has evaluated the objective at the step sizes
  \<open>candidate s 0, \<dots>, candidate s (n - 1)\<close>, which start at 5.0 and are multiplied by
  \<open>tau\<close> each round; \<open>os\<close> lists the objectives found, and \<open>n < 20\<close> (the counter
  starts at 1). The loop went on before round \<open>k\<close> exactly when the counter was below
  \<open>max_it\<close> and \<open>obj_prev\<close> minus the objective of the previous candidate (initially
  \<^verbatim>\<open>sys.float_info.max\<close>) was below the step size times the counter. The value
  \<open>min_obj\<close> is not above \<open>obj_prev\<close> nor above any objective found; and either no
  candidate was strictly below \<open>obj_prev\<close>, and then \<open>opt_step = 0.0\<close> and
  \<open>min_obj = obj_prev\<close>, or \<open>opt_step\<close> is a candidate whose objective is \<open>min_obj\<close>,
  strictly below \<open>obj_prev\<close>.
\<close>

theorem line_search_result:
  assumes ret: "line_search lik s a d yy obj_prev 20 m = Inr (min_obj, opt_step)"
  shows "candidate s 0 = Fin 5
       \<and> (\<forall>k. candidate s (Suc k) = fmul (tau s) (candidate s k))
       \<and> (\<exists>os.
             length os < 20
           \<and> (\<forall>k<length os. objective_at lik s a d yy m (candidate s k) = Inr (os ! k))
           \<and> (\<forall>k\<le>length os.
                 (k < length os) = continues s 20 obj_prev ((float_info_max # os) ! k) k)
           \<and> (\<forall>k<length os. \<not> fgreater min_obj (os ! k))
           \<and> \<not> fgreater min_obj obj_prev
           \<and> ((opt_step = Fin 0 \<and> min_obj = obj_prev
                 \<and> (\<forall>k<length os. \<not> fless (os ! k) obj_prev))
              \<or> (\<exists>k<length os. opt_step = candidate s k \<and> min_obj = os ! k
                    \<and> fless (os ! k) obj_prev)))"
proof (intro conjI)
  show "candidate s 0 = Fin 5"
    by (simp add: candidate_def)
  show "\<forall>k. candidate s (Suc k) = fmul (tau s) (candidate s k)"
    by (simp add: candidate_Suc)
  from line_search_trace[OF ret] obtain os
    where bound: "length os = 0 \<or> int (length os) < 20"
      and rest: "(\<forall>k<length os. objective_at lik s a d yy m (candidate s k) = Inr (os ! k))
         \<and> (\<forall>k\<le>length os.
               (k < length os) = continues s 20 obj_prev ((float_info_max # os) ! k) k)
         \<and> (\<forall>k<length os. \<not> fgreater min_obj (os ! k))
         \<and> \<not> fgreater min_obj obj_prev
         \<and> ((opt_step = Fin 0 \<and> min_obj = obj_prev \<and> (\<forall>k<length os. \<not> fless (os ! k) obj_prev))
            \<or> (\<exists>k<length os. opt_step = candidate s k \<and> min_obj = os ! k
                  \<and> fless (os ! k) obj_prev))"
    by blast
  from bound have "length os < 20" by auto
  with rest show "\<exists>os.
             length os < 20
           \<and> (\<forall>k<length os. objective_at lik s a d yy m (candidate s k) = Inr (os ! k))
           \<and> (\<forall>k\<le>length os.
                 (k < length os) = continues s 20 obj_prev ((float_info_max # os) ! k) k)
           \<and> (\<forall>k<length os. \<not> fgreater min_obj (os ! k))
           \<and> \<not> fgreater min_obj obj_prev
           \<and> ((opt_step = Fin 0 \<and> min_obj = obj_prev
                 \<and> (\<forall>k<length os. \<not> fless (os ! k) obj_prev))
              \<or> (\<exists>k<length os. opt_step = candidate s k \<and> min_obj = os ! k
                    \<and> fless (os ! k) obj_prev))"
    by blast
qed

text \<open>With the Gaussian likelihood, direction \<open>[5, 5, 5, 5]\<close> from \<open>alpha = 0\<close> and
  \<open>obj_prev = 200\<close>, three candidates (5, 2.5, 1.25) are tried and the search returns
  objective \<open>106.25\<close> at step \<open>1.25\<close>.\<close>

theorem line_search_result_witness:
  "line_search gauss_like s_gauss [Fin 0, Fin 0, Fin 0, Fin 0] [Fin 5, Fin 5, Fin 5, Fin 5]
     [Fin 10, Fin 10, Fin 10, Fin 10] (Fin 200) 20 [Fin 0, Fin 0, Fin 0, Fin 0]
     = Inr (Fin (425 / 4), Fin (5 / 4))
   \<and> candidate s_gauss 0 = Fin 5
   \<and> (\<forall>k. candidate s_gauss (Suc k) = fmul (tau s_gauss) (candidate s_gauss k))
   \<and> (\<exists>os.
         length os < 20
       \<and> (\<forall>k<length os.
             objective_at gauss_like s_gauss [Fin 0, Fin 0, Fin 0, Fin 0]
               [Fin 5, Fin 5, Fin 5, Fin 5] [Fin 10, Fin 10, Fin 10, Fin 10]
               [Fin 0, Fin 0, Fin 0, Fin 0] (candidate s_gauss k) = Inr (os ! k))
       \<and> (\<forall>k\<le>length os.
             (k < length os)
               = continues s_gauss 20 (Fin 200) ((float_info_max # os) ! k) k)
       \<and> (\<forall>k<length os. \<not> fgreater (Fin (425 / 4)) (os ! k))
       \<and> \<not> fgreater (Fin (425 / 4)) (Fin 200)
       \<and> ((Fin (5 / 4) = Fin 0 \<and> Fin (425 / 4) = Fin 200
             \<and> (\<forall>k<length os. \<not> fless (os ! k) (Fin 200)))
          \<or> (\<exists>k<length os. Fin (5 / 4) = candidate s_gauss k \<and> Fin (425 / 4) = os ! k
                \<and> fless (os ! k) (Fin 200))))"
proof -
  have h: "line_search gauss_like s_gauss [Fin 0, Fin 0, Fin 0, Fin 0]
      [Fin 5, Fin 5, Fin 5, Fin 5] [Fin 10, Fin 10, Fin 10, Fin 10] (Fin 200) 20
      [Fin 0, Fin 0, Fin 0, Fin 0] = Inr (Fin (425 / 4), Fin (5 / 4))"
    by (simp add: search_eval gauss_like_def s_gauss_def eye2_def kron_mvp_2x2 vec_defs)
  from h line_search_result[OF h] show ?thesis
    by (intro conjI) simp_all
qed

subsection \<open>The Newton step\<close>

lemma fmul_commute: "fmul a b = fmul b a"
  by (cases a; cases b) (auto simp: signed_inf_def)

lemma multiply_commute: "multiply a b = multiply b a"
proof -
  have "map2 fmul a b = map2 fmul b a"
  proof (induction a arbitrary: b)
    case Nil
    then show ?case by simp
  next
    case (Cons x xs)
    then show ?case by (cases b) (simp_all add: fmul_commute)
  qed
  then show ?thesis by (simp add: multiply_def)
qed

lemma fadd_zero_right: "fadd a (Fin 0) = a"
  by (cases a) auto

lemma fmul_zero_not_nan: "\<not> is_nan (fmul d (Fin 0)) \<Longrightarrow> fmul d (Fin 0) = Fin 0"
  by (cases d) auto

lemma fadd_not_nan_right: "\<not> is_nan (fadd a b) \<Longrightarrow> \<not> is_nan b"
  by (cases a; cases b) auto

lemma zero_step_keeps:
  assumes "length d = length a"
    and "\<forall>x \<in> set (vadd a (map (\<lambda>e. fmul e (Fin 0)) d)). \<not> is_nan x"
  shows "vadd a (map (\<lambda>e. fmul e (Fin 0)) d) = a"
  using assms
proof (induction d a rule: list_induct2)
  case Nil
  then show ?case by (simp add: vadd_def)
next
  case (Cons e d x a)
  from Cons.prems have n: "\<not> is_nan (fadd x (fmul e (Fin 0)))"
    and rest: "\<forall>x \<in> set (vadd a (map (\<lambda>e. fmul e (Fin 0)) d)). \<not> is_nan x"
    by (simp_all add: vadd_def)
  from n have "fmul e (Fin 0) = Fin 0"
    using fadd_not_nan_right fmul_zero_not_nan by blast
  then have "fadd x (fmul e (Fin 0)) = x" by (simp add: fadd_zero_right)
  with Cons.IH[OF rest] show ?case by (simp add: vadd_def)
qed

lemma tf_where_floor:
  "tf_where (map is_nan a) (map (\<lambda>one. fmul one (Fin (1 / 1000000000))) (ones_like a)) a
     = map floored a"
proof (rule nth_equalityI)
  show "length (tf_where (map is_nan a)
          (map (\<lambda>one. fmul one (Fin (1 / 1000000000))) (ones_like a)) a) = length (map floored a)"
    by (simp add: tf_where_def ones_like_def)
next
  fix i
  assume "i < length (tf_where (map is_nan a)
          (map (\<lambda>one. fmul one (Fin (1 / 1000000000))) (ones_like a)) a)"
  then have "i < length a" by (simp add: tf_where_def ones_like_def)
  then show "tf_where (map is_nan a)
          (map (\<lambda>one. fmul one (Fin (1 / 1000000000))) (ones_like a)) a ! i = map floored a ! i"
    by (simp add: tf_where_def ones_like_def floored_def)
qed

lemma floored_no_nan: "\<forall>x \<in> set a. \<not> is_nan x \<Longrightarrow> map floored a = a"
  by (induction a) (simp_all add: floored_def)

lemma floored_not_nan: "\<not> is_nan (floored a)"
  by (simp add: floored_def)

lemma step_eq:
  "step opt lik (max_it, it, prev, delta) s =
     (case step_search opt lik s of
        Inl e \<Rightarrow> Inl e
      | Inr (psi, delta_alpha, step_size, s3) \<Rightarrow>
          Inr ((max_it, it + 1, psi, fsub prev psi),
               s3\<lparr>alpha := map floored
                     (if fgreater (fsub prev psi) (Fin (1 / 100000))
                      then vadd (alpha s3) (map (\<lambda>d. fmul d step_size) delta_alpha)
                      else alpha s3)\<rparr>))"
  by (simp add: step_def Let_def tf_where_floor split: sum.splits prod.splits)

lemma evaluate_fields:
  assumes "evaluate lik s = Inr (psi, s1)"
  shows "\<exists>fs. s1 = s\<lparr>f := fs\<rparr>"
  using assms by (auto simp: evaluate_def Let_def split: sum.splits)

lemma step_search_fields:
  assumes "step_search opt lik s = Inr (psi, delta_alpha, step_size, s3)"
  shows "(\<exists>s1. evaluate lik s = Inr (psi, s1))
       \<and> (\<exists>fs gs ws. s3 = s\<lparr>f := fs, grads := gs, W := ws\<rparr>)
       \<and> (\<exists>min_obj. line_search lik s3 (alpha s) delta_alpha (y s) psi 20 (mu s)
                      = Inr (min_obj, step_size))"
proof -
  from assms obtain s1 where e: "evaluate lik s = Inr (psi, s1)"
    by (cases "evaluate lik s") (auto simp: step_search_def Let_def split: sum.splits prod.splits)
  from evaluate_fields[OF e] obtain fs where s1: "s1 = s\<lparr>f := fs\<rparr>" ..
  from assms e s1 show ?thesis
    by (auto simp: step_search_def Let_def split: sum.splits prod.splits)
qed

lemma objective_eq_search:
  "objective lik t = search_objective lik t (alpha t) (y t) (mu t)"
  by (cases "kron_mvp (Ks t) (alpha t)"; cases "k_diag t"; cases "mask_sel t")
     (simp_all add: objective_def evaluate_def search_objective_def Let_def multiply_commute)

lemma search_objective_cong:
  assumes "Ks t = Ks s" "k_diag t = k_diag s" "mask_sel t = mask_sel s" "y t = y s" "mu t = mu s"
  shows "search_objective lik t a yy m = search_objective lik s a yy m"
  unfolding search_objective_def assms by (rule refl)

lemma fless_not_nan: "fless a b \<Longrightarrow> \<not> is_nan a \<and> \<not> is_nan b"
  by (cases a; cases b) auto

lemma fsub_nan_right: "is_nan b \<Longrightarrow> is_nan (fsub a b)"
  by (cases a; cases b) (auto simp: fsub_def)

lemma newton_loop_continue:
  "conv vars \<Longrightarrow>
   newton_loop opt lik vars s =
     (case step opt lik vars s of Inl e \<Rightarrow> Inl e | Inr (vars', s') \<Rightarrow> newton_loop opt lik vars' s')"
  by (subst newton_loop.simps) simp

lemma newton_loop_stop: "\<not> conv vars \<Longrightarrow> newton_loop opt lik vars s = Inr (vars, s)"
  by (subst newton_loop.simps) simp

lemmas step_eval = evaluate_def step_search_def cg_prod_def cg_eval search_eval kron_mvp_2x2 vec_defs

lemmas run_eval = step_eq run_def conv_def newton_loop_continue newton_loop_stop floored_def

lemmas gauss_inputs = gauss_like_def s_gauss_def eye2_def
lemmas flat_inputs = quartic_like_def s_flat_def s_gauss_def eye2_def

lemmas objective_eval = objective_def evaluate_def kron_mvp_2x2 vec_defs boolean_mask_def

text \<open>
  \<^verbatim>\<open>KroneckerSolver.__init__\<close> creates its optimizer as \<^verbatim>\<open>CGOptimizer()\<close>, whose
  operator is \<^verbatim>\<open>None\<close>. With the solver left like that, a step that gets as far as the
  call of \<^verbatim>\<open>cg\<close> raises \<^verbatim>\<open>TypeError\<close>; the properties of \<^verbatim>\<open>step\<close> and \<^verbatim>\<open>run\<close>
  below are about steps that return, which needs the operator installed.
\<close>

lemma step_without_operator:
  "step None lik vars s = Inl TypeError \<or> (\<exists>e. evaluate lik s = Inl e)"
  by (cases vars; cases "evaluate lik s") (auto simp: step_def step_search_def cg_def Let_def)

text \<open>
  C3. A call of \<^verbatim>\<open>step\<close> that returns has computed \<open>psi\<close>, \<open>delta_alpha\<close> and
  \<open>step_size\<close>; when \<open>prev - psi > 1e-5\<close> the new \<open>alpha\<close> is
  \<open>alpha + delta_alpha * step_size\<close> (passed through the NaN floor), and otherwise it
  is the old \<open>alpha\<close> passed through the floor, which is the old \<open>alpha\<close> itself when
  that holds no NaN (as it does after \<^verbatim>\<open>__init__\<close> and after every earlier step).
\<close>

theorem step_update_gate:
  assumes st: "step opt lik (max_it, it, prev, delta) s = Inr (vars', s')"
  shows "\<exists>psi delta_alpha step_size s3.
           step_search opt lik s = Inr (psi, delta_alpha, step_size, s3)
         \<and> (fgreater (fsub prev psi) (Fin (1 / 100000)) \<longrightarrow>
              alpha s' = map floored (vadd (alpha s) (map (\<lambda>d. fmul d step_size) delta_alpha)))
         \<and> (\<not> fgreater (fsub prev psi) (Fin (1 / 100000)) \<longrightarrow>
              alpha s' = map floored (alpha s)
              \<and> ((\<forall>a \<in> set (alpha s). \<not> is_nan a) \<longrightarrow> alpha s' = alpha s))"
proof -
  from st obtain psi delta_alpha step_size s3
    where ss: "step_search opt lik s = Inr (psi, delta_alpha, step_size, s3)"
    by (cases "step_search opt lik s") (auto simp: step_eq)
  from step_search_fields[OF ss] have a3: "alpha s3 = alpha s" by auto
  from st ss a3 have "alpha s' = map floored
                     (if fgreater (fsub prev psi) (Fin (1 / 100000))
                      then vadd (alpha s) (map (\<lambda>d. fmul d step_size) delta_alpha)
                      else alpha s)"
    by (auto simp: step_eq)
  with ss show ?thesis
    by (auto simp: floored_no_nan)
qed

text \<open>The first step on the Gaussian solver: \<open>psi = 200\<close>, the direction is
  \<open>[5, 5, 5, 5]\<close>, the step size \<open>1.25\<close>, the gate is open and \<open>alpha\<close> becomes
  \<open>[6.25, 6.25, 6.25, 6.25]\<close>.\<close>

theorem step_update_gate_witness:
  "step (Some cg_prod) gauss_like (20, 0, float_info_max, float_info_max) s_gauss
     = Inr ((20, 1, Fin 200, fsub float_info_max (Fin 200)),
            s_gauss\<lparr>alpha := [Fin (25 / 4), Fin (25 / 4), Fin (25 / 4), Fin (25 / 4)],
                    W := [Fin 1, Fin 1, Fin 1, Fin 1],
                    grads := [Fin 10, Fin 10, Fin 10, Fin 10]\<rparr>)
   \<and> step_search (Some cg_prod) gauss_like s_gauss
     = Inr (Fin 200, [Fin 5, Fin 5, Fin 5, Fin 5], Fin (5 / 4),
            s_gauss\<lparr>W := [Fin 1, Fin 1, Fin 1, Fin 1], grads := [Fin 10, Fin 10, Fin 10, Fin 10]\<rparr>)
   \<and> fgreater (fsub float_info_max (Fin 200)) (Fin (1 / 100000))
   \<and> [Fin (25 / 4), Fin (25 / 4), Fin (25 / 4), Fin (25 / 4)]
     = map floored (vadd (alpha s_gauss)
         (map (\<lambda>d. fmul d (Fin (5 / 4))) [Fin 5, Fin 5, Fin 5, Fin 5]))"
proof -
  let ?s' = "s_gauss\<lparr>alpha := [Fin (25 / 4), Fin (25 / 4), Fin (25 / 4), Fin (25 / 4)],
                    W := [Fin 1, Fin 1, Fin 1, Fin 1],
                    grads := [Fin 10, Fin 10, Fin 10, Fin 10]\<rparr>"
  have h: "step (Some cg_prod) gauss_like (20, 0, float_info_max, float_info_max) s_gauss
     = Inr ((20, 1, Fin 200, fsub float_info_max (Fin 200)), ?s')"
    by (simp add: step_eval run_eval gauss_inputs)
  have ss: "step_search (Some cg_prod) gauss_like s_gauss
     = Inr (Fin 200, [Fin 5, Fin 5, Fin 5, Fin 5], Fin (5 / 4),
            s_gauss\<lparr>W := [Fin 1, Fin 1, Fin 1, Fin 1], grads := [Fin 10, Fin 10, Fin 10, Fin 10]\<rparr>)"
    by (simp add: step_eval gauss_inputs)
  have acc: "fgreater (fsub float_info_max (Fin 200)) (Fin (1 / 100000))"
    by (simp add: fgreater_def fsub_def float_info_max_def)
  from step_update_gate[OF h] obtain psi delta_alpha step_size s3
    where "step_search (Some cg_prod) gauss_like s_gauss = Inr (psi, delta_alpha, step_size, s3)"
      and g: "fgreater (fsub float_info_max psi) (Fin (1 / 100000)) \<longrightarrow>
              alpha ?s' = map floored (vadd (alpha s_gauss)
                (map (\<lambda>d. fmul d step_size) delta_alpha))"
    by blast
  with ss have "psi = Fin 200" "delta_alpha = [Fin 5, Fin 5, Fin 5, Fin 5]" "step_size = Fin (5 / 4)"
    by simp_all
  with g acc have "alpha ?s' = map floored (vadd (alpha s_gauss)
         (map (\<lambda>d. fmul d (Fin (5 / 4))) [Fin 5, Fin 5, Fin 5, Fin 5]))"
    by simp
  then have "[Fin (25 / 4), Fin (25 / 4), Fin (25 / 4), Fin (25 / 4)]
     = map floored (vadd (alpha s_gauss)
         (map (\<lambda>d. fmul d (Fin (5 / 4))) [Fin 5, Fin 5, Fin 5, Fin 5]))"
    by simp
  with h ss acc show ?thesis by (intro conjI)
qed

text \<open>
  C7. Once the first part of \<^verbatim>\<open>step\<close> has returned, the step itself returns: the
  update and the floor raise nothing. Every entry of the new \<open>alpha\<close> is the entry of
  the candidate (the updated or the kept \<open>alpha\<close>), except that a NaN entry is replaced
  by \<open>1e-9\<close>; the new \<open>alpha\<close> holds no NaN, and the loop variables returned are
  \<open>(max_it, it + 1, psi, prev - psi)\<close> as in any other step.
\<close>

theorem step_floors_nan:
  assumes ss: "step_search opt lik s = Inr (psi, delta_alpha, step_size, s3)"
  shows "\<exists>s' cand.
           step opt lik (max_it, it, prev, delta) s
             = Inr ((max_it, it + 1, psi, fsub prev psi), s')
         \<and> cand = (if fgreater (fsub prev psi) (Fin (1 / 100000))
                   then vadd (alpha s) (map (\<lambda>d. fmul d step_size) delta_alpha)
                   else alpha s)
         \<and> length (alpha s') = length cand
         \<and> (\<forall>j<length cand.
               alpha s' ! j = (if is_nan (cand ! j) then Fin (1 / 1000000000) else cand ! j))
         \<and> (\<forall>a \<in> set (alpha s'). \<not> is_nan a)"
proof -
  let ?cand = "if fgreater (fsub prev psi) (Fin (1 / 100000))
               then vadd (alpha s) (map (\<lambda>d. fmul d step_size) delta_alpha)
               else alpha s"
  let ?s' = "s3\<lparr>alpha := map floored ?cand\<rparr>"
  from step_search_fields[OF ss] have a3: "alpha s3 = alpha s" by auto
  have 1: "step opt lik (max_it, it, prev, delta) s
             = Inr ((max_it, it + 1, psi, fsub prev psi), ?s')"
    using ss a3 by (simp add: step_eq)
  have 2: "length (alpha ?s') = length ?cand" by simp
  have 3: "\<forall>j<length ?cand.
               alpha ?s' ! j = (if is_nan (?cand ! j) then Fin (1 / 1000000000) else ?cand ! j)"
    by (simp add: floored_def)
  have 4: "\<forall>a \<in> set (alpha ?s'). \<not> is_nan a"
    by (auto simp: floored_def)
  from 1 2 3 4 show ?thesis by blast
qed

text \<open>With the quartic likelihood at \<open>f = 0\<close> the curvature \<open>W\<close> is zero,
  \<open>1 / sqrt W\<close> is infinite and the direction is NaN in every entry; the step returns
  with \<open>alpha\<close> floored to \<open>1e-9\<close>, and the test of the Newton loop holds for the
  variables it returns, so the loop goes on.\<close>

theorem step_floors_nan_witness:
  "step_search (Some cg_prod) quartic_like s_flat
     = Inr (Fin 0, [NaN, NaN, NaN, NaN], Fin 0,
            s_flat\<lparr>grads := [Fin (- 1), Fin (- 1), Fin (- 1), Fin (- 1)]\<rparr>)
   \<and> vadd (alpha s_flat) (map (\<lambda>d. fmul d (Fin 0)) [NaN, NaN, NaN, NaN]) = [NaN, NaN, NaN, NaN]
   \<and> step (Some cg_prod) quartic_like (20, 0, float_info_max, float_info_max) s_flat
     = Inr ((20, 0 + 1, Fin 0, fsub float_info_max (Fin 0)),
            s_flat\<lparr>grads := [Fin (- 1), Fin (- 1), Fin (- 1), Fin (- 1)],
                   alpha := [Fin (1 / 1000000000), Fin (1 / 1000000000),
                             Fin (1 / 1000000000), Fin (1 / 1000000000)]\<rparr>)
   \<and> conv (20, 0 + 1, Fin 0, fsub float_info_max (Fin 0))"
proof -
  let ?s3 = "s_flat\<lparr>grads := [Fin (- 1), Fin (- 1), Fin (- 1), Fin (- 1)]\<rparr>"
  have ss: "step_search (Some cg_prod) quartic_like s_flat
     = Inr (Fin 0, [NaN, NaN, NaN, NaN], Fin 0, ?s3)"
    by (simp add: step_eval flat_inputs)
  have acc: "fgreater (fsub float_info_max (Fin 0)) (Fin (1 / 100000))"
    by (simp add: fgreater_def fsub_def float_info_max_def)
  have cand: "vadd (alpha s_flat) (map (\<lambda>d. fmul d (Fin 0)) [NaN, NaN, NaN, NaN])
      = [NaN, NaN, NaN, NaN]"
    by (simp add: flat_inputs vadd_def)
  from step_floors_nan[OF ss, of 20 0 float_info_max float_info_max] obtain s'
    where st: "step (Some cg_prod) quartic_like (20, 0, float_info_max, float_info_max) s_flat
             = Inr ((20, 0 + 1, Fin 0, fsub float_info_max (Fin 0)), s')"
      and nonan: "\<forall>a \<in> set (alpha s'). \<not> is_nan a"
    by blast
  have "step (Some cg_prod) quartic_like (20, 0, float_info_max, float_info_max) s_flat
     = Inr ((20, 0 + 1, Fin 0, fsub float_info_max (Fin 0)),
            s_flat\<lparr>grads := [Fin (- 1), Fin (- 1), Fin (- 1), Fin (- 1)],
                   alpha := [Fin (1 / 1000000000), Fin (1 / 1000000000),
                             Fin (1 / 1000000000), Fin (1 / 1000000000)]\<rparr>)"
    using st by (simp add: step_eval run_eval flat_inputs)
  moreover have "conv (20, 0 + 1, Fin 0, fsub float_info_max (Fin 0))"
    using acc by (simp add: conv_def)
  ultimately show ?thesis using ss cand by (intro conjI)
qed

text \<open>
  C4, as the code has it. When the update is applied, the direction has the length of
  \<open>alpha\<close> and the updated \<open>alpha\<close> holds no NaN (so that the floor leaves it as it is),
  the objective at the updated \<open>alpha\<close> is at most the objective \<open>psi\<close> at the
  \<open>alpha\<close> before the update.
\<close>

theorem accepted_step_keeps_objective_down:
  assumes ss: "step_search opt lik s = Inr (psi, delta_alpha, step_size, s3)"
    and st: "step opt lik (max_it, it, prev, delta) s = Inr (vars', s')"
    and acc: "fgreater (fsub prev psi) (Fin (1 / 100000))"
    and len: "length delta_alpha = length (alpha s)"
    and nonan: "\<forall>a \<in> set (vadd (alpha s) (map (\<lambda>d. fmul d step_size) delta_alpha)). \<not> is_nan a"
  shows "objective lik s = Inr psi \<and> (\<exists>psi'. objective lik s' = Inr psi' \<and> fle psi' psi)"
proof -
  let ?cand = "vadd (alpha s) (map (\<lambda>d. fmul d step_size) delta_alpha)"
  from step_search_fields[OF ss] obtain s1 fs gs ws min_obj
    where e: "evaluate lik s = Inr (psi, s1)"
      and s3: "s3 = s\<lparr>f := fs, grads := gs, W := ws\<rparr>"
      and ls: "line_search lik s3 (alpha s) delta_alpha (y s) psi 20 (mu s) = Inr (min_obj, step_size)"
    by blast
  from e have o: "objective lik s = Inr psi" by (simp add: objective_def)
  from st ss acc s3 have s': "s' = s3\<lparr>alpha := map floored ?cand\<rparr>"
    by (simp add: step_eq)
  with nonan have s'': "s' = s3\<lparr>alpha := ?cand\<rparr>"
    by (simp add: floored_no_nan)
  have same: "Ks s' = Ks s" "k_diag s' = k_diag s" "mask_sel s' = mask_sel s" "y s' = y s"
    "mu s' = mu s" "alpha s' = ?cand"
    using s'' s3 by simp_all
  have same3: "Ks s3 = Ks s" "k_diag s3 = k_diag s" "mask_sel s3 = mask_sel s" "y s3 = y s"
    "mu s3 = mu s"
    using s3 by simp_all
  have "objective lik s' = search_objective lik s' ?cand (y s) (mu s)"
    unfolding objective_eq_search[of lik s'] same by (rule refl)
  also have "\<dots> = search_objective lik s ?cand (y s) (mu s)"
    using same(1-5) by (rule search_objective_cong)
  finally have obj': "objective lik s' = search_objective lik s ?cand (y s) (mu s)" .
  from acc have pn: "\<not> is_nan psi"
    using fless_not_nan fsub_nan_right by (fastforce simp: fgreater_def)
  from line_search_trace[OF ls] obtain os
    where objs: "\<forall>k<length os. objective_at lik s3 (alpha s) delta_alpha (y s) (mu s)
                    (candidate s3 k) = Inr (os ! k)"
      and sel: "(step_size = Fin 0 \<and> min_obj = psi \<and> (\<forall>k<length os. \<not> fless (os ! k) psi))
            \<or> (\<exists>k<length os. step_size = candidate s3 k \<and> min_obj = os ! k
                  \<and> fless (os ! k) psi)"
    by blast
  from sel have "\<exists>psi'. objective lik s' = Inr psi' \<and> fle psi' psi"
  proof
    assume z: "step_size = Fin 0 \<and> min_obj = psi \<and> (\<forall>k<length os. \<not> fless (os ! k) psi)"
    with nonan len have "?cand = alpha s"
      using zero_step_keeps[of delta_alpha "alpha s"] by simp
    with obj' have "objective lik s' = objective lik s"
      by (simp add: objective_eq_search[of lik s])
    with o pn show ?thesis by (simp add: fle_def)
  next
    assume "\<exists>k<length os. step_size = candidate s3 k \<and> min_obj = os ! k \<and> fless (os ! k) psi"
    then obtain k where k: "k < length os" "step_size = candidate s3 k" "fless (os ! k) psi"
      by blast
    with objs have "objective_at lik s3 (alpha s) delta_alpha (y s) (mu s) step_size
                      = Inr (os ! k)" by simp
    moreover have "smul step_size delta_alpha = map (\<lambda>d. fmul d step_size) delta_alpha"
      by (simp add: smul_def fmul_commute)
    ultimately have "search_objective lik s3 ?cand (y s) (mu s) = Inr (os ! k)"
      by (simp add: objective_at_def Let_def split: if_splits)
    then have "search_objective lik s ?cand (y s) (mu s) = Inr (os ! k)"
      using search_objective_cong[OF same3] by simp
    with obj' k show ?thesis by (simp add: fle_def)
  qed
  with o show ?thesis by simp
qed

theorem accepted_step_keeps_objective_down_witness:
  "step_search (Some cg_prod) gauss_like s_gauss
     = Inr (Fin 200, [Fin 5, Fin 5, Fin 5, Fin 5], Fin (5 / 4),
            s_gauss\<lparr>W := [Fin 1, Fin 1, Fin 1, Fin 1], grads := [Fin 10, Fin 10, Fin 10, Fin 10]\<rparr>)
   \<and> step (Some cg_prod) gauss_like (20, 0, float_info_max, float_info_max) s_gauss
     = Inr ((20, 1, Fin 200, fsub float_info_max (Fin 200)),
            s_gauss\<lparr>alpha := [Fin (25 / 4), Fin (25 / 4), Fin (25 / 4), Fin (25 / 4)],
                    W := [Fin 1, Fin 1, Fin 1, Fin 1],
                    grads := [Fin 10, Fin 10, Fin 10, Fin 10]\<rparr>)
   \<and> fgreater (fsub float_info_max (Fin 200)) (Fin (1 / 100000))
   \<and> length [Fin 5, Fin 5, Fin 5, Fin (5::real)] = length (alpha s_gauss)
   \<and> vadd (alpha s_gauss) (map (\<lambda>d. fmul d (Fin (5 / 4))) [Fin 5, Fin 5, Fin 5, Fin 5])
       = [Fin (25 / 4), Fin (25 / 4), Fin (25 / 4), Fin (25 / 4)]
   \<and> objective gauss_like s_gauss = Inr (Fin 200)
   \<and> objective gauss_like
         (s_gauss\<lparr>alpha := [Fin (25 / 4), Fin (25 / 4), Fin (25 / 4), Fin (25 / 4)],
                  W := [Fin 1, Fin 1, Fin 1, Fin 1],
                  grads := [Fin 10, Fin 10, Fin 10, Fin 10]\<rparr>) = Inr (Fin (425 / 4))
   \<and> fle (Fin (425 / 4)) (Fin 200)"
proof -
  let ?s3 = "s_gauss\<lparr>W := [Fin 1, Fin 1, Fin 1, Fin 1], grads := [Fin 10, Fin 10, Fin 10, Fin 10]\<rparr>"
  let ?s' = "s_gauss\<lparr>alpha := [Fin (25 / 4), Fin (25 / 4), Fin (25 / 4), Fin (25 / 4)],
                    W := [Fin 1, Fin 1, Fin 1, Fin 1],
                    grads := [Fin 10, Fin 10, Fin 10, Fin 10]\<rparr>"
  have ss: "step_search (Some cg_prod) gauss_like s_gauss
     = Inr (Fin 200, [Fin 5, Fin 5, Fin 5, Fin 5], Fin (5 / 4), ?s3)"
    by (simp add: step_eval gauss_inputs)
  have st: "step (Some cg_prod) gauss_like (20, 0, float_info_max, float_info_max) s_gauss
     = Inr ((20, 1, Fin 200, fsub float_info_max (Fin 200)), ?s')"
    by (simp add: step_eval run_eval gauss_inputs)
  have acc: "fgreater (fsub float_info_max (Fin 200)) (Fin (1 / 100000))"
    by (simp add: fgreater_def fsub_def float_info_max_def)
  have len: "length [Fin 5, Fin 5, Fin 5, Fin (5::real)] = length (alpha s_gauss)"
    by (simp add: s_gauss_def)
  have cand: "vadd (alpha s_gauss) (map (\<lambda>d. fmul d (Fin (5 / 4))) [Fin 5, Fin 5, Fin 5, Fin 5])
       = [Fin (25 / 4), Fin (25 / 4), Fin (25 / 4), Fin (25 / 4)]"
    by (simp add: s_gauss_def vadd_def)
  have nonan: "\<forall>a \<in> set (vadd (alpha s_gauss)
      (map (\<lambda>d. fmul d (Fin (5 / 4))) [Fin 5, Fin 5, Fin 5, Fin 5])). \<not> is_nan a"
    unfolding cand by simp
  from accepted_step_keeps_objective_down[OF ss st acc len nonan]
  obtain psi' where o: "objective gauss_like s_gauss = Inr (Fin 200)"
    and o': "objective gauss_like ?s' = Inr psi'" and le: "fle psi' (Fin 200)"
    by blast
  have "objective gauss_like ?s' = Inr (Fin (425 / 4))"
    by (simp add: objective_eval gauss_inputs)
  with o' have "psi' = Fin (425 / 4)" by simp
  with o o' le ss st acc len cand show ?thesis by simp
qed

text \<open>
  C4, as the claim states it, fails when the floor changes the updated \<open>alpha\<close>: with
  the quartic likelihood at \<open>f = 0\<close> the update is applied (\<open>prev - psi > 1e-5\<close>), the line search
  returns step size \<open>0.0\<close>, the NaN direction makes every entry of \<open>alpha\<close> NaN, the
  floor sets it to \<open>1e-9\<close>, and the objective rises from \<open>0\<close> to
  about \<open>4.000000002e-9\<close>.
\<close>

theorem accepted_step_raises_objective_counterexample:
  "step (Some cg_prod) quartic_like (20, 0, float_info_max, float_info_max) s_flat
     = Inr ((20, 1, Fin 0, fsub float_info_max (Fin 0)),
            s_flat\<lparr>grads := [Fin (- 1), Fin (- 1), Fin (- 1), Fin (- 1)],
                   alpha := [Fin (1 / 1000000000), Fin (1 / 1000000000),
                             Fin (1 / 1000000000), Fin (1 / 1000000000)]\<rparr>)
   \<and> fgreater (fsub float_info_max (Fin 0)) (Fin (1 / 100000))
   \<and> objective quartic_like s_flat = Inr (Fin 0)
   \<and> objective quartic_like
         (s_flat\<lparr>grads := [Fin (- 1), Fin (- 1), Fin (- 1), Fin (- 1)],
                 alpha := [Fin (1 / 1000000000), Fin (1 / 1000000000),
                           Fin (1 / 1000000000), Fin (1 / 1000000000)]\<rparr>)
       = Inr (Fin (12000000006000000000000000001 / 3000000000000000000000000000000000000))
   \<and> fless (Fin 0) (Fin (12000000006000000000000000001 / 3000000000000000000000000000000000000))
   \<and> \<not> fle (Fin (12000000006000000000000000001 / 3000000000000000000000000000000000000)) (Fin 0)"
proof (intro conjI)
  show "step (Some cg_prod) quartic_like (20, 0, float_info_max, float_info_max) s_flat
     = Inr ((20, 1, Fin 0, fsub float_info_max (Fin 0)),
            s_flat\<lparr>grads := [Fin (- 1), Fin (- 1), Fin (- 1), Fin (- 1)],
                   alpha := [Fin (1 / 1000000000), Fin (1 / 1000000000),
                             Fin (1 / 1000000000), Fin (1 / 1000000000)]\<rparr>)"
    by (simp add: step_eval run_eval flat_inputs)
  show "fgreater (fsub float_info_max (Fin 0)) (Fin (1 / 100000))"
    by (simp add: fgreater_def fsub_def float_info_max_def)
  show "objective quartic_like s_flat = Inr (Fin 0)"
    by (simp add: objective_eval flat_inputs)
  show "objective quartic_like
         (s_flat\<lparr>grads := [Fin (- 1), Fin (- 1), Fin (- 1), Fin (- 1)],
                 alpha := [Fin (1 / 1000000000), Fin (1 / 1000000000),
                           Fin (1 / 1000000000), Fin (1 / 1000000000)]\<rparr>)
       = Inr (Fin (12000000006000000000000000001 / 3000000000000000000000000000000000000))"
    by (simp add: objective_eval flat_inputs)
  show "fless (Fin 0) (Fin (12000000006000000000000000001 / 3000000000000000000000000000000000000))"
    by simp
  show "\<not> fle (Fin (12000000006000000000000000001 / 3000000000000000000000000000000000000)) (Fin 0)"
    by (simp add: fle_def)
qed

subsection \<open>The Newton run\<close>



subsection \<open>The marginal likelihood\<close>

lemma foldl_append_concat: "foldl (\<lambda>out r. out @ g r) acc xs = acc @ concat (map g xs)"
  by (induction xs arbitrary: acc) simp_all

lemma kron_row_single: "kron_row [x] b = map (smul x) b"
proof -
  have "map2 (@) (replicate (length b) []) (map (smul x) b) = map (smul x) b"
    by (induction b) simp_all
  then show ?thesis by (simp add: kron_row_def nrows_def)
qed

lemma kron_columns: "kron (expand_dims a) (expand_dims b) = expand_dims (kron_vec a b)"
proof -
  have "kron (expand_dims a) (expand_dims b)
        = concat (map (\<lambda>arow. kron_row arow (expand_dims b)) (expand_dims a))"
    by (simp add: kron_def foldl_append_concat)
  also have "\<dots> = concat (map (\<lambda>x. map (smul x) (expand_dims b)) a)"
    by (simp add: expand_dims_def comp_def kron_row_single)
  also have "\<dots> = concat (map (\<lambda>x. expand_dims (map (fmul x) b)) a)"
    by (simp add: expand_dims_def smul_def comp_def)
  also have "\<dots> = expand_dims (kron_vec a b)"
    by (simp add: expand_dims_def kron_vec_def map_concat comp_def)
  finally show ?thesis .
qed

lemma foldl_kron_columns:
  "foldl kron (expand_dims a) (map expand_dims es) = expand_dims (foldl kron_vec a es)"
  by (induction es arbitrary: a) (simp_all add: kron_columns)

lemma flatten_expand_dims: "flatten (expand_dims v) = v"
  by (induction v) (simp_all add: flatten_def expand_dims_def)

lemma kron_list_eigs:
  assumes "2 \<le> length es"
  shows "kron_list (map expand_dims es) = Inr (expand_dims (combined_eigs es))"
proof -
  from assms obtain e0 e1 rest where "es = e0 # e1 # rest"
    by (cases es; cases "tl es") auto
  then show ?thesis
    by (simp add: combined_eigs_def kron_columns foldl_kron_columns)
qed

lemma boolean_mask_nth:
  assumes "length v = length b"
  shows "boolean_mask v b = map (\<lambda>i. v ! i) (filter (\<lambda>i. b ! i) [0..<length b])"
proof -
  have "zip v b = map (\<lambda>i. zip v b ! i) [0..<length (zip v b)]"
    by (simp only: map_nth)
  also have "\<dots> = map (\<lambda>i. (v ! i, b ! i)) [0..<length b]"
    using assms by (intro map_cong) simp_all
  finally have z: "zip v b = map (\<lambda>i. (v ! i, b ! i)) [0..<length b]" .
  show ?thesis
    unfolding boolean_mask_def z by (simp add: filter_map comp_def)
qed

lemma whole_nth: "length v = n \<Longrightarrow> map (\<lambda>i. v ! i) [0..<n] = v"
  using map_nth[of v] by simp

lemma map2_map_map: "map2 g (map a xs) (map b xs) = map (\<lambda>i. g (a i) (b i)) xs"
  by (induction xs) simp_all

lemma masked_products:
  "multiply (map (\<lambda>i. a ! i) sel) (vsub (map (\<lambda>i. b ! i) sel) (map (\<lambda>i. c ! i) sel))
     = map (\<lambda>i. fmul (a ! i) (fsub (b ! i) (c ! i))) sel"
  by (simp add: multiply_def vsub_def map2_map_map)

lemma masked_logs:
  "map flog (map (fadd (Fin 1)) (multiply (map (\<lambda>i. a ! i) sel) (map (\<lambda>i. b ! i) sel)))
     = map (\<lambda>i. flog (fadd (Fin 1) (fmul (a ! i) (b ! i)))) sel"
  by (simp add: multiply_def map2_map_map comp_def)

lemma masked_logs_comp:
  "map (flog \<circ> fadd (Fin 1)) (multiply (map ((!) a) sel) (map ((!) b) sel))
     = map (\<lambda>i. flog (fadd (Fin 1) (fmul (a ! i) (b ! i)))) sel"
  by (simp add: multiply_def map2_map_map comp_def)

text \<open>
  C8, as the code has it. With two or more kernel factors, vectors co-indexed over
  \<open>n\<close> grid points and, when a mask is configured, more than one grid point,
  \<^verbatim>\<open>marginal\<close> returns the value of \<open>marginal_spec\<close>: the eigenvalues of \<open>K\<close> are
  the Kronecker combination of the factors' eigenvalues and all three sums range over
  the masked entries.
\<close>

theorem marginal_formula:
  assumes factors: "factors = (case Ks_new of None \<Rightarrow> Ks s | Some new \<Rightarrow> new)"
    and two: "2 \<le> length factors"
    and n: "length (alpha s) = n" "length (f s) = n" "length (mu s) = n" "length (W s) = n"
      "length (y s) = n" "length (combined_eigs (map eig factors)) = n"
    and m: "\<forall>b. mask_sel s = Some b \<longrightarrow> length b = n \<and> n \<noteq> 1"
  shows "marginal eig lik Ks_new s = Inr (marginal_spec eig lik factors s)"
proof -
  let ?lam = "combined_eigs (map eig factors)"
  have "2 \<le> length (map eig factors)" using two by simp
  from kron_list_eigs[OF this]
  have k: "kron_list (map (\<lambda>K. expand_dims (eig K)) factors) = Inr (expand_dims ?lam)"
    by (simp add: comp_def)
  note fs = factors[symmetric]
  show ?thesis
  proof (cases "mask_sel s")
    case None
    have sel: "selected (mask_sel s) (length (alpha s)) = [0..<n]"
      using None n by (simp add: selected_def)
    have w: "map (\<lambda>i. v ! i) [0..<n] = v" if "length v = n" for v :: vec
      using that by (rule whole_nth)
    have p: "map (\<lambda>i. fmul (alpha s ! i) (fsub (f s ! i) (mu s ! i))) [0..<n]
               = multiply (alpha s) (vsub (f s) (mu s))"
      using masked_products[of "alpha s" "[0..<n]" "f s" "mu s"] n by (simp add: w)
    have l: "map (\<lambda>i. flog (fadd (Fin 1) (fmul (?lam ! i) (W s ! i)))) [0..<n]
               = map flog (map (fadd (Fin 1)) (multiply ?lam (W s)))"
      using masked_logs[of ?lam "[0..<n]" "W s"] n by (simp add: w)
    have code: "marginal eig lik Ks_new s =
        Inr (fadd
               (fsub
                  (fmul (Fin (- (1 / 2))) (reduce_sum (multiply (alpha s) (vsub (f s) (mu s)))))
                  (fmul (Fin (1 / 2))
                     (reduce_sum (map flog (map (fadd (Fin 1)) (multiply ?lam (W s)))))))
               (reduce_sum (log_like lik (y s) (f s))))"
      unfolding marginal_def Let_def fs k using None by (simp add: flatten_expand_dims)
    have spec: "marginal_spec eig lik factors s =
        fadd
          (fsub
             (fmul (Fin (- (1 / 2))) (reduce_sum (multiply (alpha s) (vsub (f s) (mu s)))))
             (fmul (Fin (1 / 2))
                (reduce_sum (map flog (map (fadd (Fin 1)) (multiply ?lam (W s)))))))
          (reduce_sum (log_like lik (y s) (f s)))"
      unfolding marginal_spec_def Let_def sel p l using n by (simp add: w)
    from code spec show ?thesis by simp
  next
    case (Some b)
    with m have lb: "length b = n" and n1: "n \<noteq> 1" by simp_all
    let ?sel = "filter (\<lambda>i. b ! i) [0..<n]"
    have sel: "selected (mask_sel s) (length (alpha s)) = ?sel"
      using Some n by (simp add: selected_def)
    have bm: "boolean_mask v b = map (\<lambda>i. v ! i) ?sel" if "length v = n" for v :: vec
      using boolean_mask_nth[of v b] that lb by simp
    have code: "marginal eig lik Ks_new s =
        Inr (fadd
               (fsub
                  (fmul (Fin (- (1 / 2)))
                     (reduce_sum (map (\<lambda>i. fmul (alpha s ! i) (fsub (f s ! i) (mu s ! i))) ?sel)))
                  (fmul (Fin (1 / 2))
                     (reduce_sum (map (\<lambda>i. flog (fadd (Fin 1) (fmul (?lam ! i) (W s ! i)))) ?sel))))
               (reduce_sum (log_like lik (map (\<lambda>i. y s ! i) ?sel) (map (\<lambda>i. f s ! i) ?sel))))"
      unfolding marginal_def Let_def fs k using Some n n1
      by (simp add: flatten_expand_dims bm masked_products masked_logs_comp)
    have spec: "marginal_spec eig lik factors s =
        fadd
               (fsub
                  (fmul (Fin (- (1 / 2)))
                     (reduce_sum (map (\<lambda>i. fmul (alpha s ! i) (fsub (f s ! i) (mu s ! i))) ?sel)))
                  (fmul (Fin (1 / 2))
                     (reduce_sum (map (\<lambda>i. flog (fadd (Fin 1) (fmul (?lam ! i) (W s ! i)))) ?sel))))
               (reduce_sum (log_like lik (map (\<lambda>i. y s ! i) ?sel) (map (\<lambda>i. f s ! i) ?sel)))"
      unfolding marginal_spec_def Let_def sel by (rule refl)
    from code spec show ?thesis by simp
  qed
qed

lemma eigs_eye2: "combined_eigs [diagonal eye2, diagonal eye2] = [Fin 1, Fin 1, Fin 1, Fin 1]"
  by (simp add: combined_eigs_def kron_vec_def diagonal_def eye2_def)

theorem marginal_formula_witness:
  "Ks s_masked = (case (None :: matrix list option) of None \<Rightarrow> Ks s_masked | Some new \<Rightarrow> new)
   \<and> 2 \<le> length (Ks s_masked)
   \<and> length (alpha s_masked) = 4 \<and> length (f s_masked) = 4 \<and> length (mu s_masked) = 4
   \<and> length (W s_masked) = 4 \<and> length (y s_masked) = 4
   \<and> length (combined_eigs (map diagonal (Ks s_masked))) = 4
   \<and> mask_sel s_masked = Some [True, False, True, True]
   \<and> marginal diagonal gauss_like None s_masked
       = Inr (marginal_spec diagonal gauss_like (Ks s_masked) s_masked)
   \<and> marginal_spec diagonal gauss_like (Ks s_masked) s_masked = Fin (- 150)"
proof -
  have ks: "Ks s_masked = [eye2, eye2]"
    by (simp add: s_masked_def s_gauss_def)
  have 1: "Ks s_masked = (case (None :: matrix list option) of None \<Rightarrow> Ks s_masked | Some new \<Rightarrow> new)"
    by simp
  have 2: "2 \<le> length (Ks s_masked)"
    by (simp add: ks)
  have 3: "length (alpha s_masked) = 4" "length (f s_masked) = 4" "length (mu s_masked) = 4"
    "length (W s_masked) = 4" "length (y s_masked) = 4"
    by (simp_all add: s_masked_def s_gauss_def)
  have 4: "length (combined_eigs (map diagonal (Ks s_masked))) = 4"
    by (simp add: ks eigs_eye2)
  have 5: "mask_sel s_masked = Some [True, False, True, True]"
    by (simp add: s_masked_def)
  have 6: "\<forall>b. mask_sel s_masked = Some b \<longrightarrow> length b = 4 \<and> (4::nat) \<noteq> 1"
    by (simp add: 5)
  have 7: "marginal_spec diagonal gauss_like (Ks s_masked) s_masked = Fin (- 150)"
    by (simp add: marginal_spec_def selected_def ks eigs_eye2 s_masked_def s_gauss_def
        gauss_like_def fsub_def Let_def upt_rec)
  from marginal_formula[OF 1 2 3 4 6] 1 2 3 4 5 7 show ?thesis
    by simp
qed

text \<open>
  C8, as the claim states it, fails for a single kernel factor: \<^verbatim>\<open>kron_list\<close> reads
  \<open>matrices[1]\<close> of a one-element list and \<^verbatim>\<open>marginal\<close> raises \<^verbatim>\<open>IndexError\<close>.
\<close>

theorem marginal_single_factor_counterexample:
  "marginal diagonal gauss_like None s_single = Inl IndexError"
  by (simp add: marginal_def s_single_def)

text \<open>With fewer than two factors \<^verbatim>\<open>marginal\<close> always raises \<^verbatim>\<open>IndexError\<close>; and on a
  grid of a single point a configured mask makes it raise \<^verbatim>\<open>ValueError\<close>, because the
  squeezed eigenvalue product is a scalar.\<close>

lemma marginal_needs_two_factors:
  assumes "length (case Ks_new of None \<Rightarrow> Ks s | Some new \<Rightarrow> new) < 2"
  shows "marginal eig lik Ks_new s = Inl IndexError"
proof -
  let ?factors = "case Ks_new of None \<Rightarrow> Ks s | Some new \<Rightarrow> new"
  from assms have "?factors = [] \<or> (\<exists>K. ?factors = [K])"
    by (cases ?factors; cases "tl ?factors") auto
  then have "kron_list (map (\<lambda>K. expand_dims (eig K)) ?factors) = Inl IndexError"
    by auto
  then show ?thesis
    by (simp add: marginal_def Let_def)
qed

lemma marginal_masked_single_point:
  "marginal diagonal gauss_like None
     \<lparr>Ks = [[[Fin 1]], [[Fin 1]]], mu = [Fin 0], y = [Fin 10], X = [[0, 0]],
      k_diag = None, mask_sel = Some [True], tau = Fin (1 / 2), alpha = [Fin 0],
      W = [Fin 0], grads = [Fin 0], f = [Fin 0]\<rparr> = Inl ValueError"
  by (simp add: marginal_def diagonal_def expand_dims_def kron_def kron_row_def nrows_def
      smul_def flatten_def Let_def)

end
